theory Spec2Isabelle
  imports Main "HOL-Library.Word" "HOL-Library.Multiset"
begin

unbundle bit_operations_syntax

section \<open>Data model of \<^verbatim>\<open>Proof_of_Concept/tui.h\<close>\<close>

text \<open>
  Machine types. \<^verbatim>\<open>uint16_t\<close> is a 16-bit word; C's \<^verbatim>\<open>int\<close> is 32 bits wide and
  is read as two's complement with \<open>sint\<close>. A data pointer and a function pointer are
  addresses, with \<open>0\<close> for \<^verbatim>\<open>NULL\<close>.

  The names are the source's, except that a leading underscore is dropped
  (\<open>tui_active\<close>, \<open>needs_resize\<close>, \<open>old_tio\<close>) and that short field names carry a prefix
  (\<open>pos_x\<close> for \<^verbatim>\<open>Position.x\<close>, \<open>ch_c\<close> for \<^verbatim>\<open>TMTCHAR.c\<close>, \<open>comp_kind\<close> for
  \<^verbatim>\<open>Component.kind\<close>). \<^verbatim>\<open>Component.context\<close> points to the one global context and is left
  out.
\<close>

type_synonym u16 = "16 word"
type_synonym cint = "32 word"
type_synonym byte = "8 word"
type_synonym wchar = "32 word"
type_synonym ptr = nat
type_synonym fptr = nat

definition NULL :: nat where
  "NULL = 0"

definition MAX_COMPONENTS :: nat where
  "MAX_COMPONENTS = 64"

definition MAX_CHILDREN :: nat where
  "MAX_CHILDREN = 64"

record ResizeEvent =
  new_width :: u16
  new_height :: u16

datatype mouse_button = MOUSE_BUTTON_1 | MOUSE_BUTTON_2 | MOUSE_BUTTON_3 | MOUSE_MOVE

record MouseEvent =
  mouse_x :: u16
  mouse_y :: u16
  mouse_action :: mouse_button

record KeyEvent =
  key :: wchar

datatype EventKind = END | RESIZE | MOUSE | KEY

text \<open>
  The anonymous union of \<^verbatim>\<open>Event\<close> holds the member that was written last, or nothing
  when no member was ever written.
\<close>

datatype event_union = Unwritten | ResizeMember ResizeEvent | MouseMember MouseEvent
  | KeyMember KeyEvent

text \<open>
  A local \<^verbatim>\<open>Event e;\<close> is declared without an initialiser, so each scalar field is
  \<open>None\<close> until the code assigns it.
\<close>

record Event =
  handled :: "bool option"
  kind :: "EventKind option"
  members :: event_union

record Position =
  pos_x :: u16
  pos_y :: u16
  pos_width :: u16
  pos_height :: u16

datatype ComponentKind = Kind1 | Kind2

record Component =
  parent :: ptr
  pos :: Position
  num_children :: u16
  children :: "ptr list"
  onClick :: fptr
  onKeypress :: fptr
  render :: fptr
  resize :: fptr
  comp_kind :: ComponentKind

record GlobalContext =
  screen :: ptr
  window_width :: u16
  window_height :: u16
  needs_resize :: bool
  exiting :: bool
  num_components :: u16
  componentList :: "ptr list"
  rootComponent :: ptr

section \<open>Helper functions\<close>

subsection \<open>\<^verbatim>\<open>inComponent\<close>\<close>

text \<open>
  The operands of each comparison are \<^verbatim>\<open>uint16_t\<close> values promoted to \<^verbatim>\<open>int\<close>; the
  sums \<^verbatim>\<open>p.x + p.width\<close> and \<^verbatim>\<open>p.y + p.height\<close> are \<^verbatim>\<open>int\<close> additions. Each comparison
  yields the \<^verbatim>\<open>int\<close> 0 or 1, the four are joined with the bitwise \<^verbatim>\<open>&\<close>, and the result is
  converted to \<^verbatim>\<open>bool\<close>.
\<close>

definition promote :: "u16 \<Rightarrow> cint" where
  "promote v = ucast v"

definition c_le :: "cint \<Rightarrow> cint \<Rightarrow> cint" where
  "c_le a b = (if sint a \<le> sint b then 1 else 0)"

definition c_ge :: "cint \<Rightarrow> cint \<Rightarrow> cint" where
  "c_ge a b = (if sint b \<le> sint a then 1 else 0)"

definition inComponent :: "Component \<Rightarrow> u16 \<Rightarrow> u16 \<Rightarrow> bool" where
  "inComponent c x y =
     (let p = pos c in
        (c_ge (promote x) (promote (pos_x p))
           AND c_le (promote x) (promote (pos_x p) + promote (pos_width p))
           AND c_ge (promote y) (promote (pos_y p))
           AND c_le (promote y) (promote (pos_y p) + promote (pos_height p))) \<noteq> 0)"

subsection \<open>\<^verbatim>\<open>raiseComponent\<close>\<close>

text \<open>
  The loop of \<^verbatim>\<open>raiseComponent\<close>, entered with \<open>i = 1\<close>: slot \<open>i\<close> takes the carried
  pointer \<open>tmp\<close>, and the loop stops at the slot that held \<open>c\<close>. The array has
  \<^verbatim>\<open>MAX_COMPONENTS\<close> slots; an index past the end of the list is an access outside the array
  and gives \<open>None\<close>.
\<close>

function raise_loop :: "ptr \<Rightarrow> nat \<Rightarrow> nat \<Rightarrow> ptr \<Rightarrow> ptr list \<Rightarrow> ptr list option" where
  "raise_loop c nc i tmp components =
     (if i < nc then
        (if i < length components then
           (let despot = components ! i in
              if despot = c then Some (components[i := tmp])
              else raise_loop c nc (i + 1) despot (components[i := tmp]))
         else None)
      else Some components)"
  by pat_completeness auto
termination
  by (relation "measure (\<lambda>(c, nc, i, tmp, components). nc - i)") auto

declare raise_loop.simps [simp del]

definition raiseComponent :: "ptr \<Rightarrow> GlobalContext \<Rightarrow> GlobalContext option" where
  "raiseComponent c g =
     (let nc = unat (num_components g); components = componentList g in
        if nc \<le> 1 then Some g
        else if length components = 0 then None
        else
          (let tmp = components ! 0 in
             if tmp = c then Some g
             else
               (case raise_loop c nc 1 tmp (components[0 := c]) of
                  None \<Rightarrow> None
                | Some components' \<Rightarrow> Some (g\<lparr>componentList := components'\<rparr>))))"

text \<open>The registry proper: the first \<^verbatim>\<open>num_components\<close> slots of the array.\<close>

definition registry :: "GlobalContext \<Rightarrow> ptr list" where
  "registry g = take (unat (num_components g)) (componentList g)"

section \<open>Process state\<close>

text \<open>
  The terminal, the signal dispositions and the locale belong to the operating system.
  The model keeps their current values and a trace of the calls that write them, so that
  "exactly once" can be read off the trace. \<^verbatim>\<open>ECHO\<close> and \<^verbatim>\<open>ICANON\<close> have their Linux values.
\<close>

record termios =
  c_iflag :: "32 word"
  c_oflag :: "32 word"
  c_cflag :: "32 word"
  c_lflag :: "32 word"

definition ECHO :: "32 word" where
  "ECHO = 8"

definition ICANON :: "32 word" where
  "ICANON = 2"

datatype signum = SIGINT | SIGTERM | SIGWINCH

datatype sighandler = SIG_DFL | SIG_IGN | sigwinch_handler | sigint_sigterm_handler
  | other_handler nat

datatype syscall =
    Sys_tcsetattr termios
  | Sys_write string
  | Sys_signal signum sighandler
  | Sys_setlocale string
  | Sys_stderr string

record os_state =
  tio :: termios
  disp_sigint :: sighandler
  disp_sigterm :: sighandler
  disp_sigwinch :: sighandler
  cur_locale :: "string option"
  installed_locales :: "string list"
  ws_row :: u16
  ws_col :: u16
  trace :: "syscall list"

definition sys_tcsetattr :: "termios \<Rightarrow> os_state \<Rightarrow> os_state" where
  "sys_tcsetattr t w = w\<lparr>tio := t, trace := trace w @ [Sys_tcsetattr t]\<rparr>"

definition sys_write :: "string \<Rightarrow> os_state \<Rightarrow> os_state" where
  "sys_write bytes w = w\<lparr>trace := trace w @ [Sys_write bytes]\<rparr>"

definition sys_stderr :: "string \<Rightarrow> os_state \<Rightarrow> os_state" where
  "sys_stderr text w = w\<lparr>trace := trace w @ [Sys_stderr text]\<rparr>"

definition disposition :: "signum \<Rightarrow> os_state \<Rightarrow> sighandler" where
  "disposition sig w =
     (case sig of SIGINT \<Rightarrow> disp_sigint w | SIGTERM \<Rightarrow> disp_sigterm w
      | SIGWINCH \<Rightarrow> disp_sigwinch w)"

text \<open>\<^verbatim>\<open>signal(sig, h)\<close> installs \<open>h\<close>; its return value is \<open>disposition sig\<close> before the call.\<close>

definition sys_signal :: "signum \<Rightarrow> sighandler \<Rightarrow> os_state \<Rightarrow> os_state" where
  "sys_signal sig h w =
     (case sig of
        SIGINT \<Rightarrow> w\<lparr>disp_sigint := h, trace := trace w @ [Sys_signal sig h]\<rparr>
      | SIGTERM \<Rightarrow> w\<lparr>disp_sigterm := h, trace := trace w @ [Sys_signal sig h]\<rparr>
      | SIGWINCH \<Rightarrow> w\<lparr>disp_sigwinch := h, trace := trace w @ [Sys_signal sig h]\<rparr>)"

text \<open>
  \<^verbatim>\<open>setlocale(category, name)\<close>: with a \<^verbatim>\<open>NULL\<close> name it only queries; with a name it
  succeeds when the locale is installed, and otherwise returns \<^verbatim>\<open>NULL\<close> and changes
  nothing. The first component of the result says whether the call returned non-\<^verbatim>\<open>NULL\<close>.
\<close>

definition sys_setlocale :: "string option \<Rightarrow> os_state \<Rightarrow> bool \<times> os_state" where
  "sys_setlocale name w =
     (case name of
        None \<Rightarrow> (cur_locale w \<noteq> None, w)
      | Some n \<Rightarrow>
          (if n \<in> set (installed_locales w)
           then (True, w\<lparr>cur_locale := Some n, trace := trace w @ [Sys_setlocale n]\<rparr>)
           else (False, w\<lparr>trace := trace w @ [Sys_setlocale n]\<rparr>)))"

text \<open>
  The globals of \<^verbatim>\<open>tui.h\<close>, the component objects the pointers refer to, the operating
  system, and the memory of the application (\<open>app\<close>), which callbacks may use.
\<close>

record 'a tui_state =
  tui_globalcontext :: GlobalContext
  tui_active :: cint
  old_tio :: termios
  old_sigwinch :: sighandler
  old_sigterm :: sighandler
  old_sigint :: sighandler
  old_locale :: "string option"
  objects :: "ptr \<Rightarrow> Component option"
  os :: os_state
  app :: 'a

text \<open>
  How a call returns to its caller: normally, by \<^verbatim>\<open>exit\<close> (\<^verbatim>\<open>tui_PANIC\<close> is \<^verbatim>\<open>exit(1)\<close>
  unless the includer redefines it), or not at all in a defined way (a read of a variable
  that was never assigned, a dereference of \<^verbatim>\<open>NULL\<close>, an access outside an array).
\<close>

datatype ('r, 'a) outcome = Returned 'r "'a tui_state" | Exited cint "'a tui_state" | Undefined

definition ESC :: char where
  "ESC = CHR 0x1B"

definition NUL :: char where
  "NUL = CHR 0x00"

text \<open>The arrays are written with \<^verbatim>\<open>sizeof\<close>, which counts the terminating zero byte.\<close>

definition init_term :: string where
  "init_term = ESC # ''?1049h'' @ ESC # ''[2J'' @ ESC # ''[H'' @ ESC # ''[?25l''
     @ ESC # ''[?1000l'' @ [NUL]"

definition restore_term :: string where
  "restore_term = ESC # ''[?1049h'' @ ESC # ''[?1000l'' @ ESC # ''[2J'' @ ESC # ''[?25h''
     @ ESC # ''[?1049l'' @ [NUL]"

subsection \<open>\<^verbatim>\<open>updateSize\<close>\<close>

text \<open>
  \<^verbatim>\<open>ioctl(TIOCGWINSZ)\<close> reads the window size; \<^verbatim>\<open>unsigned short\<close> is 16 bits wide, so the
  branch under \<^verbatim>\<open>#if (USHRT_MAX > UINT16_MAX)\<close> is not compiled.
\<close>

definition updateSize :: "'a tui_state \<Rightarrow> 'a tui_state" where
  "updateSize s =
     s\<lparr>tui_globalcontext := (tui_globalcontext s)
          \<lparr>window_width := ws_col (os s), window_height := ws_row (os s)\<rparr>\<rparr>"

subsection \<open>\<^verbatim>\<open>tui_deinit\<close> and \<^verbatim>\<open>tui_error\<close>\<close>

definition tui_deinit :: "'a tui_state \<Rightarrow> 'a tui_state" where
  "tui_deinit s =
     (if tui_active s = 0 then s
      else
        (let s = s\<lparr>tui_active := 0\<rparr>;
             w = os s;
             w = sys_signal SIGINT (old_sigint s) w;
             w = sys_signal SIGTERM (old_sigterm s) w;
             w = sys_signal SIGWINCH (old_sigwinch s) w;
             w = sys_tcsetattr (old_tio s) w;
             w = snd (sys_setlocale (old_locale s) w);
             w = sys_write restore_term w
         in s\<lparr>os := w\<rparr>))"

definition tui_error :: "string \<Rightarrow> 'a tui_state \<Rightarrow> ('r, 'a) outcome" where
  "tui_error message s =
     (let s = tui_deinit s;
          s = s\<lparr>os := sys_stderr (message @ [CHR 0x0A]) (os s)\<rparr>
      in Exited 1 s)"

subsection \<open>\<^verbatim>\<open>tui_init\<close>\<close>

text \<open>
  \<open>opened\<close> is the pointer that \<^verbatim>\<open>tmt_open\<close> returns. A call of \<^verbatim>\<open>tui_error\<close> ends the
  process, so the code after it is the \<open>else\<close> branch.
\<close>

definition tui_init :: "ptr \<Rightarrow> 'a tui_state \<Rightarrow> (unit, 'a) outcome" where
  "tui_init opened s =
     (let s = s\<lparr>old_tio := tio (os s)\<rparr>;
          tio_new = (old_tio s)\<lparr>c_lflag := c_lflag (old_tio s) AND (NOT ECHO AND NOT ICANON)\<rparr>;
          s = s\<lparr>os := sys_tcsetattr tio_new (os s)\<rparr>;
          s = s\<lparr>os := sys_write init_term (os s)\<rparr>;
          s = s\<lparr>old_locale := cur_locale (os s)\<rparr>
      in
        if old_locale s = None then tui_error ''Could not query the locale.'' s
        else
          (let (ok1, w1) = sys_setlocale (Some ''C.UTF-8'') (os s);
               (ok2, w2) = (if ok1 then (True, w1) else sys_setlocale (Some ''en_US.UTF-8'') w1);
               s = s\<lparr>os := w2\<rparr>
           in
             if \<not> ok2 then tui_error ''Could not set locale to utf8.'' s
             else
               (let g = tui_globalcontext s;
                    g = g\<lparr>exiting := False\<rparr>;
                    g = g\<lparr>needs_resize := False\<rparr>;
                    g = g\<lparr>rootComponent := NULL\<rparr>;
                    g = g\<lparr>num_components := 0\<rparr>;
                    g = g\<lparr>componentList := replicate MAX_COMPONENTS NULL\<rparr>;
                    s = s\<lparr>tui_globalcontext := g\<rparr>;
                    s = s\<lparr>old_sigint := disposition SIGINT (os s),
                           os := sys_signal SIGINT sigint_sigterm_handler (os s)\<rparr>;
                    s = s\<lparr>old_sigterm := disposition SIGTERM (os s),
                           os := sys_signal SIGTERM sigint_sigterm_handler (os s)\<rparr>;
                    s = s\<lparr>old_sigwinch := disposition SIGWINCH (os s),
                           os := sys_signal SIGWINCH sigwinch_handler (os s)\<rparr>;
                    s = updateSize s;
                    s = s\<lparr>tui_globalcontext := (tui_globalcontext s)\<lparr>screen := opened\<rparr>\<rparr>;
                    s = s\<lparr>tui_active := 1\<rparr>
                in Returned () s)))"

section \<open>Event dispatch\<close>

text \<open>
  \<^verbatim>\<open>components[i]->field\<close>: the slot must lie inside the array and hold the address of a
  component object.
\<close>

definition component_at :: "'a tui_state \<Rightarrow> u16 \<Rightarrow> Component option" where
  "component_at s i =
     (let components = componentList (tui_globalcontext s) in
        if unat i < length components then
          (let p = components ! unat i in if p = NULL then None else objects s p)
        else None)"

text \<open>
  The callbacks are C functions reached through function pointers. Their meaning is a
  parameter of the model: \<open>K f ev s\<close> runs the \<^verbatim>\<open>onKeypress\<close> function at address \<open>f\<close> in
  state \<open>s\<close> and gives its \<^verbatim>\<open>int\<close> result and the state it leaves; \<open>M\<close> does so for
  \<^verbatim>\<open>onClick\<close> and \<open>R\<close> for \<^verbatim>\<open>resize\<close>.

  The loop at the end of \<^verbatim>\<open>handle_event\<close>, from index \<open>i\<close> on. The bound
  \<^verbatim>\<open>tui_globalcontext.num_components\<close> and the slot are read again in every round, from the
  state the previous callback left. \<^verbatim>\<open>e.kind\<close> is read at the top of every round; a member
  of the union is read only as the member that was written.
\<close>

function dispatch_loop ::
  "(fptr \<Rightarrow> KeyEvent \<Rightarrow> 'a tui_state \<Rightarrow> cint \<times> 'a tui_state) \<Rightarrow>
   (fptr \<Rightarrow> MouseEvent \<Rightarrow> 'a tui_state \<Rightarrow> cint \<times> 'a tui_state) \<Rightarrow>
   u16 \<Rightarrow> Event \<Rightarrow> 'a tui_state \<Rightarrow> (Event, 'a) outcome" where
  "dispatch_loop K M i e s =
     (if i < num_components (tui_globalcontext s) then
        (case kind e of
           None \<Rightarrow> Undefined
         | Some k \<Rightarrow>
             if k = KEY then
               (case component_at s i of
                  None \<Rightarrow> Undefined
                | Some c \<Rightarrow>
                    if onKeypress c \<noteq> NULL then
                      (case members e of
                         KeyMember keyEvent \<Rightarrow>
                           (case K (onKeypress c) keyEvent s of
                              (r, s') \<Rightarrow>
                                if r \<noteq> 0 then Returned (e\<lparr>handled := Some True\<rparr>) s'
                                else dispatch_loop K M (i + 1) (e\<lparr>handled := Some False\<rparr>) s')
                       | _ \<Rightarrow> Undefined)
                    else dispatch_loop K M (i + 1) e s)
             else if k = MOUSE then
               (case component_at s i of
                  None \<Rightarrow> Undefined
                | Some c \<Rightarrow>
                    if onClick c \<noteq> NULL then
                      (case members e of
                         MouseMember mouseEvent \<Rightarrow>
                           if inComponent c (mouse_x mouseEvent) (mouse_y mouseEvent) then
                             (case M (onClick c) mouseEvent s of
                                (r, s') \<Rightarrow>
                                  if r \<noteq> 0 then Returned (e\<lparr>handled := Some True\<rparr>) s'
                                  else dispatch_loop K M (i + 1) (e\<lparr>handled := Some False\<rparr>) s')
                           else dispatch_loop K M (i + 1) e s
                       | _ \<Rightarrow> Undefined)
                    else dispatch_loop K M (i + 1) e s)
             else dispatch_loop K M (i + 1) e s)
      else Returned e s)"
  by pat_completeness auto
termination
proof -
  have step: "unat (i + 1) = Suc (unat i) \<and> unat i < 65536" if "i < n" for i n :: u16
  proof -
    from that have "unat i < unat n" by (simp add: word_less_nat_alt)
    moreover have "unat n < 65536" using unsigned_less [of n, where ?'a = nat] by simp
    ultimately have "unat i + unat (1 :: u16) < 2 ^ LENGTH(16)" by simp
    then have "unat (i + 1) = unat i + unat (1 :: u16)" by (simp only: unat_add_lem)
    with \<open>unat i < unat n\<close> \<open>unat n < 65536\<close> show ?thesis by simp
  qed
  show ?thesis
    by (relation "measure (\<lambda>(K, M, i, e, s). 65536 - unat i)") (auto dest!: step)
qed

declare dispatch_loop.simps [simp del]

text \<open>
  \<^verbatim>\<open>handle_event\<close>. \<^verbatim>\<open>tui_error\<close> does not return, so what follows each guard is its
  \<open>else\<close> branch. The local \<^verbatim>\<open>Event e\<close> starts with no field assigned, and between the
  resize branch and the loop the source has comments only.
\<close>

definition handle_event ::
  "(fptr \<Rightarrow> KeyEvent \<Rightarrow> 'a tui_state \<Rightarrow> cint \<times> 'a tui_state) \<Rightarrow>
   (fptr \<Rightarrow> MouseEvent \<Rightarrow> 'a tui_state \<Rightarrow> cint \<times> 'a tui_state) \<Rightarrow>
   (fptr \<Rightarrow> Position \<Rightarrow> 'a tui_state \<Rightarrow> 'a tui_state) \<Rightarrow>
   'a tui_state \<Rightarrow> (Event, 'a) outcome" where
  "handle_event K M R s =
     (if tui_active s = 0 then tui_error ''Root component not initialized.'' s
      else if rootComponent (tui_globalcontext s) \<noteq> NULL then tui_error ''Tui is not active.'' s
      else
        (let e = \<lparr>handled = None, kind = None, members = Unwritten\<rparr> in
           if exiting (tui_globalcontext s) then
             (let s = tui_deinit s
              in Returned (e\<lparr>kind := Some END, handled := Some True\<rparr>) s)
           else if needs_resize (tui_globalcontext s) then
             (let s = s\<lparr>tui_globalcontext := (tui_globalcontext s)\<lparr>needs_resize := False\<rparr>\<rparr>;
                  s = updateSize s;
                  root = rootComponent (tui_globalcontext s)
              in
                if root = NULL then Undefined
                else
                  (case objects s root of
                     None \<Rightarrow> Undefined
                   | Some rc \<Rightarrow>
                       if resize rc = NULL then Undefined
                       else
                         (let s = R (resize rc)
                                    \<lparr>pos_x = 0, pos_y = 0,
                                     pos_width = window_width (tui_globalcontext s),
                                     pos_height = window_height (tui_globalcontext s)\<rparr> s;
                              e = e\<lparr>kind := Some RESIZE\<rparr>;
                              e = e\<lparr>handled := Some True\<rparr>;
                              e = e\<lparr>members := ResizeMember
                                    \<lparr>new_width = window_width (tui_globalcontext s),
                                     new_height = window_height (tui_globalcontext s)\<rparr>\<rparr>
                          in Returned e s)))
           else dispatch_loop K M 0 e s))"

section \<open>Rendering\<close>

text \<open>
  The declarations of \<^verbatim>\<open>libtmt/tmt.h\<close> that \<^verbatim>\<open>writescreen\<close> uses. The colour type
  \<^verbatim>\<open>tmt_color_t\<close> is a type parameter \<open>'col\<close>, and so is the terminal itself (\<^verbatim>\<open>TMT\<close>),
  as \<open>'vt\<close>; the library functions
  \<^verbatim>\<open>tmt_screen\<close> and \<^verbatim>\<open>tmt_write\<close> and the C library's \<^verbatim>\<open>wctomb\<close> are parameters of the
  model. \<open>wctomb ch\<close> gives the value the call returns and the bytes it has stored at the
  start of the buffer.
\<close>

record 'col TMTATTRS =
  fg :: 'col
  bg :: 'col
  attrs :: byte
  reverse :: bool

record 'col TMTCHAR =
  ch_c :: wchar
  ch_a :: "'col TMTATTRS"

record 'col TMTLINE =
  dirty :: bool
  chars :: "'col TMTCHAR list"

record 'col TMTSCREEN =
  nline :: nat
  ncol :: nat
  lines :: "'col TMTLINE list"

record ('col, 'vt) extern =
  tmt_screen :: "'vt \<Rightarrow> 'col TMTSCREEN"
  tmt_write :: "'vt \<Rightarrow> byte list \<Rightarrow> 'vt"
  wctomb :: "wchar \<Rightarrow> cint \<times> byte list"

text \<open>
  The terminals that the \<^verbatim>\<open>TMT *\<close> pointers refer to, and the calls of \<^verbatim>\<open>tmt_write\<close>
  made so far (the output of the pass).
\<close>

record 'vt render_state =
  terminals :: "ptr \<Rightarrow> 'vt option"
  written :: "(ptr \<times> byte list) list"

text \<open>
  The swap of foreground and background for a cell in reverse video. The source computes
  it, and seeds \<^verbatim>\<open>last\<close>, but uses neither for the output: where colours and attributes
  would be applied it has a comment only.
\<close>

definition effective_attrs :: "'col TMTATTRS \<Rightarrow> 'col TMTATTRS" where
  "effective_attrs a =
     (if reverse a then (let tmp = bg a in a\<lparr>bg := fg a, fg := tmp, reverse := False\<rparr>) else a)"

text \<open>
  The string literal \<^verbatim>\<open>"\uFFFD"\<close> in the UTF-8 execution character set, without its
  terminating zero byte.
\<close>

definition replacement_char :: "byte list" where
  "replacement_char = [0xEF, 0xBF, 0xBD]"

text \<open>
  \<^verbatim>\<open>char cbuffer[64]\<close> starts uninitialised (\<open>None\<close> in every position). Storing more
  bytes than the buffer holds is an access outside the array.
\<close>

definition store_bytes :: "byte list \<Rightarrow> byte option list \<Rightarrow> byte option list option" where
  "store_bytes bs buf =
     (if length bs \<le> length buf then Some (map Some bs @ drop (length bs) buf) else None)"

text \<open>
  The encoding of one cell: the bytes \<^verbatim>\<open>cbuffer[0 .. cbuflen-1]\<close> handed to \<^verbatim>\<open>tmt_write\<close>.
  \<^verbatim>\<open>sprintf\<close> stores the literal and its zero byte and returns the literal's length;
  \<^verbatim>\<open>cbuflen += wcret\<close> is arithmetic in \<^verbatim>\<open>size_t\<close> (64 bits).
\<close>

definition encode_cell :: "('col, 'vt) extern \<Rightarrow> wchar \<Rightarrow> byte list option" where
  "encode_cell L ch =
     (let cbuflen = (0 :: nat);
          cbuffer = replicate 64 None;
          (wcret, stored) = wctomb L ch
      in
        case store_bytes stored cbuffer of
          None \<Rightarrow> None
        | Some cbuffer \<Rightarrow>
            (case (if wcret = - 1 then
                     (case store_bytes (replacement_char @ [0]) cbuffer of
                        None \<Rightarrow> None
                      | Some cbuffer' \<Rightarrow> Some (of_nat (length replacement_char), cbuffer'))
                   else Some (wcret, cbuffer)) of
               None \<Rightarrow> None
             | Some (wcret, cbuffer) \<Rightarrow>
                 (let cbuflen = (cbuflen + nat (sint wcret mod 2 ^ 64)) mod 2 ^ 64 in
                    if cbuflen \<le> length cbuffer \<and> None \<notin> set (take cbuflen cbuffer)
                    then Some (map the (take cbuflen cbuffer))
                    else None)))"

definition tmt_write_call ::
  "('col, 'vt) extern \<Rightarrow> ptr \<Rightarrow> byte list \<Rightarrow> 'vt render_state \<Rightarrow> 'vt render_state option" where
  "tmt_write_call L tmt bytes st =
     (if tmt = NULL then None
      else
        (case terminals st tmt of
           None \<Rightarrow> None
         | Some v \<Rightarrow>
             Some (st\<lparr>terminals := (terminals st)(tmt \<mapsto> tmt_write L v bytes),
                      written := written st @ [(tmt, bytes)]\<rparr>)))"

text \<open>
  \<^verbatim>\<open>screen->lines[lnum]\<close>, where \<^verbatim>\<open>screen\<close> is what \<^verbatim>\<open>tmt_screen\<close> gave for
  \<^verbatim>\<open>tui_globalcontext.screen\<close>: the line is read from the terminal as it is now.
\<close>

definition current_line ::
  "('col, 'vt) extern \<Rightarrow> GlobalContext \<Rightarrow> 'vt render_state \<Rightarrow> nat \<Rightarrow> 'col TMTLINE option" where
  "current_line L g st lnum =
     (if screen g = NULL then None
      else
        (case terminals st (screen g) of
           None \<Rightarrow> None
         | Some v \<Rightarrow>
             (let ls = lines (tmt_screen L v) in
                if lnum < length ls then Some (ls ! lnum) else None)))"

text \<open>The inner loop of \<^verbatim>\<open>writescreen\<close>, over the columns of line \<open>lnum\<close>.\<close>

function writescreen_cols ::
  "('col, 'vt) extern \<Rightarrow> GlobalContext \<Rightarrow> ptr \<Rightarrow> nat \<Rightarrow> nat \<Rightarrow> nat \<Rightarrow> 'vt render_state \<Rightarrow>
   'vt render_state option" where
  "writescreen_cols L g tmt lnum cnum ncols st =
     (if cnum < ncols then
        (case current_line L g st lnum of
           None \<Rightarrow> None
         | Some line \<Rightarrow>
             if cnum < length (chars line) then
               (let c = ch_c (chars line ! cnum);
                    attrs = effective_attrs (ch_a (chars line ! cnum))
                in
                  case encode_cell L c of
                    None \<Rightarrow> None
                  | Some cbuffer \<Rightarrow>
                      (case tmt_write_call L tmt cbuffer st of
                         None \<Rightarrow> None
                       | Some st' \<Rightarrow> writescreen_cols L g tmt lnum (cnum + 1) ncols st'))
             else None)
      else Some st)"
  by pat_completeness auto
termination
  by (relation "measure (\<lambda>(L, g, tmt, lnum, cnum, ncols, st). ncols - cnum)") auto

declare writescreen_cols.simps [simp del]

text \<open>The outer loop: a line whose \<^verbatim>\<open>dirty\<close> flag is clear is skipped by \<^verbatim>\<open>continue\<close>.\<close>

function writescreen_lines ::
  "('col, 'vt) extern \<Rightarrow> GlobalContext \<Rightarrow> ptr \<Rightarrow> nat \<Rightarrow> nat \<Rightarrow> nat \<Rightarrow> 'vt render_state \<Rightarrow>
   'vt render_state option" where
  "writescreen_lines L g tmt lnum nlines ncols st =
     (if lnum < nlines then
        (case current_line L g st lnum of
           None \<Rightarrow> None
         | Some line \<Rightarrow>
             if \<not> dirty line then writescreen_lines L g tmt (lnum + 1) nlines ncols st
             else
               (case writescreen_cols L g tmt lnum 0 ncols st of
                  None \<Rightarrow> None
                | Some st' \<Rightarrow> writescreen_lines L g tmt (lnum + 1) nlines ncols st'))
      else Some st)"
  by pat_completeness auto
termination
  by (relation "measure (\<lambda>(L, g, tmt, lnum, nlines, ncols, st). nlines - lnum)") auto

declare writescreen_lines.simps [simp del]

definition writescreen ::
  "('col, 'vt) extern \<Rightarrow> GlobalContext \<Rightarrow> ptr \<Rightarrow> 'vt render_state \<Rightarrow> 'vt render_state option" where
  "writescreen L g tmt st =
     (if screen g = NULL then None
      else
        (case terminals st (screen g) of
           None \<Rightarrow> None
         | Some v \<Rightarrow>
             (let scr = tmt_screen L v; nl = nline scr; nc = ncol scr
              in writescreen_lines L g tmt 0 nl nc st)))"

section \<open>Notions used in the statements\<close>

text \<open>
  An event as the loop of \<^verbatim>\<open>handle_event\<close> expects it: of kind \<^verbatim>\<open>KEY\<close> or \<^verbatim>\<open>MOUSE\<close>, the
  matching member of the union written.
\<close>

definition event_wf :: "Event \<Rightarrow> bool" where
  "event_wf e =
     (case (kind e, members e) of
        (Some KEY, KeyMember k) \<Rightarrow> True
      | (Some MOUSE, MouseMember m) \<Rightarrow> True
      | _ \<Rightarrow> False)"

text \<open>
  \<open>applies e c\<close>: a round of the loop on component \<open>c\<close> calls a handler of \<open>c\<close>. For a key
  that is the case when \<open>c\<close> has a keypress handler; for a mouse event when \<open>c\<close> has a click
  handler and its rectangle contains the pointer. \<open>deliver\<close> is that call.
\<close>

definition applies :: "Event \<Rightarrow> Component \<Rightarrow> bool" where
  "applies e c =
     (case (kind e, members e) of
        (Some KEY, KeyMember k) \<Rightarrow> onKeypress c \<noteq> NULL
      | (Some MOUSE, MouseMember m) \<Rightarrow>
          onClick c \<noteq> NULL \<and> inComponent c (mouse_x m) (mouse_y m)
      | _ \<Rightarrow> False)"

definition deliver ::
  "(fptr \<Rightarrow> KeyEvent \<Rightarrow> 'a tui_state \<Rightarrow> cint \<times> 'a tui_state) \<Rightarrow>
   (fptr \<Rightarrow> MouseEvent \<Rightarrow> 'a tui_state \<Rightarrow> cint \<times> 'a tui_state) \<Rightarrow>
   Event \<Rightarrow> Component \<Rightarrow> 'a tui_state \<Rightarrow> cint \<times> 'a tui_state" where
  "deliver K M e c s =
     (case members e of
        KeyMember k \<Rightarrow> K (onKeypress c) k s
      | MouseMember m \<Rightarrow> M (onClick c) m s
      | _ \<Rightarrow> (0, s))"

text \<open>
  The slots of the registry whose component the event applies to, in ascending order of
  the index, and a registry whose slots all hold the address of a component object.
\<close>

definition candidate :: "Event \<Rightarrow> 'a tui_state \<Rightarrow> nat \<Rightarrow> bool" where
  "candidate e s k = (case component_at s (of_nat k) of None \<Rightarrow> False | Some c \<Rightarrow> applies e c)"

definition candidates :: "Event \<Rightarrow> 'a tui_state \<Rightarrow> nat list" where
  "candidates e s = filter (candidate e s) [0..<unat (num_components (tui_globalcontext s))]"

definition live_registry :: "'a tui_state \<Rightarrow> bool" where
  "live_registry s =
     list_all (\<lambda>k. component_at s (of_nat k) \<noteq> None)
       [0..<unat (num_components (tui_globalcontext s))]"

text \<open>The UTF-8 encoding of a code point, for comparison with the bytes the code emits.\<close>

definition utf8_encode :: "nat \<Rightarrow> byte list" where
  "utf8_encode cp =
     (if cp < 0x80 then [of_nat cp]
      else if cp < 0x800 then [0xC0 OR of_nat (cp div 64), 0x80 OR of_nat (cp mod 64)]
      else if cp < 0x10000 then
        [0xE0 OR of_nat (cp div 4096), 0x80 OR of_nat (cp div 64 mod 64),
         0x80 OR of_nat (cp mod 64)]
      else
        [0xF0 OR of_nat (cp div 262144), 0x80 OR of_nat (cp div 4096 mod 64),
         0x80 OR of_nat (cp div 64 mod 64), 0x80 OR of_nat (cp mod 64)])"

text \<open>
  What the proofs about \<^verbatim>\<open>writescreen\<close> need of the library. \<open>keeps_grid\<close>: \<^verbatim>\<open>tmt_write\<close>
  leaves the number of lines and the length of every line as they are and clears no
  \<^verbatim>\<open>dirty\<close> flag.
  \<open>wctomb_ok\<close>: \<^verbatim>\<open>wctomb\<close> stays inside the buffer and returns either \<open>-1\<close> or a count of
  bytes it has stored. \<open>grid_ok\<close>: the screen has the lines and columns that its
  \<^verbatim>\<open>nline\<close> and \<^verbatim>\<open>ncol\<close> announce.
\<close>

definition keeps_grid :: "('col, 'vt) extern \<Rightarrow> bool" where
  "keeps_grid L =
     (\<forall>v bs.
        (let a = lines (tmt_screen L v); b = lines (tmt_screen L (tmt_write L v bs)) in
           length b = length a \<and>
           (\<forall>l < length a.
              length (chars (b ! l)) = length (chars (a ! l)) \<and> (dirty (a ! l) \<longrightarrow> dirty (b ! l)))))"

definition wctomb_ok :: "('col, 'vt) extern \<Rightarrow> bool" where
  "wctomb_ok L =
     (\<forall>ch. case wctomb L ch of
              (r, stored) \<Rightarrow>
                length stored \<le> 64 \<and> (r = - 1 \<or> (0 \<le> sint r \<and> nat (sint r) \<le> length stored)))"

definition grid_ok :: "'col TMTSCREEN \<Rightarrow> bool" where
  "grid_ok scr =
     (nline scr \<le> length (lines scr) \<and>
      (\<forall>l < nline scr. ncol scr \<le> length (chars (lines scr ! l))))"

text \<open>
  The \<^verbatim>\<open>dirty\<close> flag of a line of the screen of \<^verbatim>\<open>tui_globalcontext.screen\<close>, and the
  invariant of the two loops: the pointers are valid, the grid has at least \<open>n\<close> lines of
  at least \<open>m\<close> cells, and every line that \<open>D\<close> marks is dirty.
\<close>

definition line_dirty :: "('col, 'vt) extern \<Rightarrow> GlobalContext \<Rightarrow> 'vt render_state \<Rightarrow> nat \<Rightarrow> bool" where
  "line_dirty L g st l = (case current_line L g st l of None \<Rightarrow> False | Some line \<Rightarrow> dirty line)"

definition grid_inv ::
  "('col, 'vt) extern \<Rightarrow> GlobalContext \<Rightarrow> ptr \<Rightarrow> nat \<Rightarrow> nat \<Rightarrow> (nat \<Rightarrow> bool) \<Rightarrow> 'vt render_state \<Rightarrow> bool" where
  "grid_inv L g tmt n m D st =
     (screen g \<noteq> NULL \<and> tmt \<noteq> NULL \<and> terminals st tmt \<noteq> None \<and>
      (case terminals st (screen g) of
         None \<Rightarrow> False
       | Some v \<Rightarrow>
           n \<le> length (lines (tmt_screen L v)) \<and>
           (\<forall>l < n. m \<le> length (chars (lines (tmt_screen L v) ! l)) \<and>
                     (D l \<longrightarrow> dirty (lines (tmt_screen L v) ! l)))))"

section \<open>Concrete states\<close>

text \<open>
  A context whose registry holds the given component pointers, the remaining array slots
  being \<^verbatim>\<open>NULL\<close>, and a component without handlers at a given rectangle.
\<close>

definition ctx_of :: "nat \<Rightarrow> ptr list \<Rightarrow> GlobalContext" where
  "ctx_of n cs = \<lparr>screen = 0, window_width = 80, window_height = 24, needs_resize = False,
     exiting = False, num_components = of_nat n,
     componentList = cs @ replicate (MAX_COMPONENTS - length cs) NULL, rootComponent = NULL\<rparr>"

definition box_at :: "u16 \<Rightarrow> u16 \<Rightarrow> u16 \<Rightarrow> u16 \<Rightarrow> Component" where
  "box_at bx bY bw bh = \<lparr>parent = NULL,
     pos = \<lparr>pos_x = bx, pos_y = bY, pos_width = bw, pos_height = bh\<rparr>,
     num_children = 0, children = replicate MAX_CHILDREN NULL,
     onClick = NULL, onKeypress = NULL, render = NULL, resize = NULL, comp_kind = Kind1\<rparr>"

text \<open>
  An operating system state; the process before \<^verbatim>\<open>tui_init\<close> (static storage is zero);
  and the process after \<^verbatim>\<open>tui_init\<close> on that system, \<^verbatim>\<open>tmt_open\<close> having returned the
  address 100.
\<close>

definition os0 :: os_state where
  "os0 = \<lparr>tio = \<lparr>c_iflag = 0x500, c_oflag = 5, c_cflag = 0xBF, c_lflag = 0x8A3B\<rparr>,
     disp_sigint = SIG_DFL, disp_sigterm = SIG_DFL, disp_sigwinch = SIG_IGN,
     cur_locale = Some ''C'', installed_locales = [''C'', ''C.UTF-8''],
     ws_row = 24, ws_col = 80, trace = []\<rparr>"

definition boot :: "nat list tui_state" where
  "boot = \<lparr>tui_globalcontext = \<lparr>screen = NULL, window_width = 0, window_height = 0,
       needs_resize = False, exiting = False, num_components = 0,
       componentList = replicate MAX_COMPONENTS NULL, rootComponent = NULL\<rparr>,
     tui_active = 0,
     old_tio = \<lparr>c_iflag = 0, c_oflag = 0, c_cflag = 0, c_lflag = 0\<rparr>,
     old_sigwinch = SIG_DFL, old_sigterm = SIG_DFL, old_sigint = SIG_DFL,
     old_locale = None, objects = (\<lambda>p. None), os = os0, app = []\<rparr>"

definition running :: "nat list tui_state" where
  "running = boot\<lparr>tui_globalcontext := (tui_globalcontext boot)
         \<lparr>screen := 100, window_width := 80, window_height := 24\<rparr>,
     tui_active := 1,
     old_tio := tio os0,
     old_sigwinch := SIG_IGN,
     old_locale := Some ''C'',
     os := os0\<lparr>tio := (tio os0)\<lparr>c_lflag := 0x8A31\<rparr>,
       disp_sigint := sigint_sigterm_handler, disp_sigterm := sigint_sigterm_handler,
       disp_sigwinch := sigwinch_handler, cur_locale := Some ''C.UTF-8'',
       trace := [Sys_tcsetattr ((tio os0)\<lparr>c_lflag := 0x8A31\<rparr>), Sys_write init_term,
         Sys_setlocale ''C.UTF-8'', Sys_signal SIGINT sigint_sigterm_handler,
         Sys_signal SIGTERM sigint_sigterm_handler, Sys_signal SIGWINCH sigwinch_handler]\<rparr>\<rparr>"

text \<open>
  The running process with components registered: \<open>boxA\<close> in slot 0 and \<open>boxB\<close> in slot 1,
  overlapping in the square from (5,5) to (10,10), each with a click and a keypress
  handler; one component without handlers; and a state in which a root component is
  assigned.
\<close>

definition with_registry :: "ptr list \<Rightarrow> (ptr \<times> Component) list \<Rightarrow> nat list tui_state \<Rightarrow> nat list tui_state" where
  "with_registry ps cs s =
     s\<lparr>tui_globalcontext := (tui_globalcontext s)
          \<lparr>num_components := of_nat (length ps),
           componentList := ps @ replicate (MAX_COMPONENTS - length ps) NULL\<rparr>,
       objects := map_of cs\<rparr>"

definition boxA :: Component where
  "boxA = (box_at 0 0 10 10)\<lparr>onClick := 1, onKeypress := 1\<rparr>"

definition boxB :: Component where
  "boxB = (box_at 5 5 10 10)\<lparr>onClick := 2, onKeypress := 2\<rparr>"

definition two_boxes :: "nat list tui_state" where
  "two_boxes = with_registry [10, 20] [(10, boxA), (20, boxB)] running"

definition one_plain_box :: "nat list tui_state" where
  "one_plain_box = with_registry [10] [(10, box_at 0 0 10 10)] running"

definition rooted :: "nat list tui_state" where
  "rooted = (with_registry [10] [(10, box_at 0 0 80 24)] running)
     \<lparr>tui_globalcontext := (tui_globalcontext (with_registry [10] [(10, box_at 0 0 80 24)] running))
        \<lparr>rootComponent := 10\<rparr>\<rparr>"

definition resize_pending :: "nat list tui_state" where
  "resize_pending = rooted\<lparr>tui_globalcontext := (tui_globalcontext rooted)\<lparr>needs_resize := True\<rparr>\<rparr>"

definition resize_pending_unrooted :: "nat list tui_state" where
  "resize_pending_unrooted =
     running\<lparr>tui_globalcontext := (tui_globalcontext running)\<lparr>needs_resize := True\<rparr>\<rparr>"

definition K_log :: "fptr \<Rightarrow> KeyEvent \<Rightarrow> nat list tui_state \<Rightarrow> cint \<times> nat list tui_state" where
  "K_log f ev s = (1, s\<lparr>app := app s @ [f]\<rparr>)"

definition M_log :: "fptr \<Rightarrow> MouseEvent \<Rightarrow> nat list tui_state \<Rightarrow> cint \<times> nat list tui_state" where
  "M_log f ev s = (1, s\<lparr>app := app s @ [f]\<rparr>)"

text \<open>
  A click at a point, a key press whose \<^verbatim>\<open>handled\<close> field nobody has assigned, and the
  local \<^verbatim>\<open>Event e\<close> of \<^verbatim>\<open>handle_event\<close> as its declaration leaves it.
\<close>

definition click_at :: "u16 \<Rightarrow> u16 \<Rightarrow> Event" where
  "click_at px py = \<lparr>handled = Some False, kind = Some MOUSE,
     members = MouseMember \<lparr>mouse_x = px, mouse_y = py, mouse_action = MOUSE_BUTTON_1\<rparr>\<rparr>"

definition key_press :: "wchar \<Rightarrow> Event" where
  "key_press k = \<lparr>handled = None, kind = Some KEY, members = KeyMember \<lparr>key = k\<rparr>\<rparr>"

definition e_unassigned :: Event where
  "e_unassigned = \<lparr>handled = None, kind = None, members = Unwritten\<rparr>"

text \<open>
  A stand-in for the terminal library: colours are numbers, a terminal is its screen
  together with the bytes it has been fed, \<^verbatim>\<open>tmt_write\<close> records the bytes, and \<^verbatim>\<open>wctomb\<close> encodes ASCII only, as
  in the "C" locale. The screen has a clean first line and a dirty second line whose second
  cell holds U+20AC.
\<close>

definition ascii_wctomb :: "wchar \<Rightarrow> cint \<times> byte list" where
  "ascii_wctomb ch = (if ch < 0x80 then (1, [ucast ch]) else (- 1, []))"

definition demo_lib :: "(nat, nat TMTSCREEN \<times> byte list) extern" where
  "demo_lib = \<lparr>tmt_screen = fst, tmt_write = (\<lambda>v bytes. (fst v, snd v @ bytes)),
     wctomb = ascii_wctomb\<rparr>"

definition plain_cell :: "wchar \<Rightarrow> nat TMTCHAR" where
  "plain_cell ch = \<lparr>ch_c = ch, ch_a = \<lparr>fg = 7, bg = 0, attrs = 0, reverse = False\<rparr>\<rparr>"

definition demo_screen :: "nat TMTSCREEN" where
  "demo_screen = \<lparr>nline = 2, ncol = 2,
     lines = [\<lparr>dirty = False, chars = [plain_cell 0x68, plain_cell 0x69]\<rparr>,
              \<lparr>dirty = True, chars = [plain_cell 0x41, plain_cell 0x20AC]\<rparr>]\<rparr>"

definition demo_ctx :: GlobalContext where
  "demo_ctx = (ctx_of 0 [])\<lparr>screen := 100\<rparr>"

definition demo_st :: "(nat TMTSCREEN \<times> byte list) render_state" where
  "demo_st = \<lparr>terminals = [100 \<mapsto> (demo_screen, [])], written = []\<rparr>"

section \<open>Verification\<close>

subsection \<open>Containment is inclusive on both edges\<close>

lemma uint_u16_bound: "uint (v :: u16) < 65536"
  using uint_bounded [of v] by simp

lemma sint_promote: "sint (promote v) = uint v"
proof -
  have up: "uint (ucast v :: cint) = uint v"
    by (rule uint_up_ucast) (simp add: is_up)
  have "sint (ucast v :: cint) = signed_take_bit 31 (uint v)"
    by (simp add: sint_uint up)
  also have "\<dots> = uint v"
  proof (rule signed_take_bit_int_eq_self)
    have "0 \<le> uint v" and "(0::int) \<le> 2 ^ 31" by simp_all
    then show "- (2 ^ 31) \<le> uint v" by linarith
    show "uint v < 2 ^ 31" using uint_u16_bound [of v] by simp
  qed
  finally show ?thesis by (simp add: promote_def)
qed

lemma sint_promote_add: "sint (promote a + promote b) = uint a + uint b"
proof -
  have "sint (promote a + promote b) = signed_take_bit 31 (uint a + uint b)"
    by (simp add: sint_word_add sint_promote)
  also have "\<dots> = uint a + uint b"
  proof (rule signed_take_bit_int_eq_self)
    have "0 \<le> uint a" and "0 \<le> uint b" and "(0::int) \<le> 2 ^ 31" by simp_all
    then show "- (2 ^ 31) \<le> uint a + uint b" by linarith
    show "uint a + uint b < 2 ^ 31"
      using uint_u16_bound [of a] uint_u16_bound [of b] by simp
  qed
  finally show ?thesis .
qed

lemma inComponent_unat:
  "inComponent c px py \<longleftrightarrow>
      unat (pos_x (pos c)) \<le> unat px \<and> unat px \<le> unat (pos_x (pos c)) + unat (pos_width (pos c)) \<and>
      unat (pos_y (pos c)) \<le> unat py \<and> unat py \<le> unat (pos_y (pos c)) + unat (pos_height (pos c))"
proof -
  have "inComponent c px py \<longleftrightarrow>
      uint (pos_x (pos c)) \<le> uint px \<and> uint px \<le> uint (pos_x (pos c)) + uint (pos_width (pos c)) \<and>
      uint (pos_y (pos c)) \<le> uint py \<and> uint py \<le> uint (pos_y (pos c)) + uint (pos_height (pos c))"
    by (simp add: inComponent_def Let_def c_le_def c_ge_def sint_promote sint_promote_add)
  then show ?thesis
    by (simp only: uint_nat of_nat_add [symmetric] of_nat_le_iff)
qed

text \<open>
  Claim C5. For every component rectangle and every point, \<^verbatim>\<open>inComponent\<close> holds exactly
  when \<open>px \<ge> x\<close>, \<open>px \<le> x + width\<close>, \<open>py \<ge> y\<close> and \<open>py \<le> y + height\<close>, the sums being
  taken without wrap-around (they are computed in \<^verbatim>\<open>int\<close>); in particular a point with
  \<open>px = x + width\<close> that is within the vertical range is inside.
\<close>

theorem inComponent_inclusive:
  "(inComponent c px py \<longleftrightarrow>
      unat (pos_x (pos c)) \<le> unat px \<and> unat px \<le> unat (pos_x (pos c)) + unat (pos_width (pos c)) \<and>
      unat (pos_y (pos c)) \<le> unat py \<and> unat py \<le> unat (pos_y (pos c)) + unat (pos_height (pos c)))
   \<and> (unat px = unat (pos_x (pos c)) + unat (pos_width (pos c)) \<and>
        unat (pos_y (pos c)) \<le> unat py \<and> unat py \<le> unat (pos_y (pos c)) + unat (pos_height (pos c))
        \<longrightarrow> inComponent c px py)"
proof -
  have inside: "inComponent c px py \<longleftrightarrow>
      unat (pos_x (pos c)) \<le> unat px \<and> unat px \<le> unat (pos_x (pos c)) + unat (pos_width (pos c)) \<and>
      unat (pos_y (pos c)) \<le> unat py \<and> unat py \<le> unat (pos_y (pos c)) + unat (pos_height (pos c))"
    by (rule inComponent_unat)
  have "inComponent c px py"
    if "unat px = unat (pos_x (pos c)) + unat (pos_width (pos c))"
      and "unat (pos_y (pos c)) \<le> unat py"
      and "unat py \<le> unat (pos_y (pos c)) + unat (pos_height (pos c))"
    using that by (simp add: inside)
  with inside show ?thesis by blast
qed

theorem inComponent_inclusive_witness:
  "unat (5 :: u16) = unat (pos_x (pos (box_at 2 1 3 4))) + unat (pos_width (pos (box_at 2 1 3 4))) \<and>
   unat (pos_y (pos (box_at 2 1 3 4))) \<le> unat (5 :: u16) \<and>
   unat (5 :: u16) \<le> unat (pos_y (pos (box_at 2 1 3 4))) + unat (pos_height (pos (box_at 2 1 3 4))) \<and>
   inComponent (box_at 2 1 3 4) 5 5 \<and> \<not> inComponent (box_at 2 1 3 4) 6 5"
  using inComponent_inclusive [of "box_at 2 1 3 4" 5 5] inComponent_inclusive [of "box_at 2 1 3 4" 6 5]
  by (simp add: box_at_def)

subsection \<open>\<^verbatim>\<open>raiseComponent\<close> moves the component to slot 0\<close>

lemma raise_loop_shift:
  "length pre = i \<Longrightarrow> c \<in> set (take (nc - i) rest) \<Longrightarrow>
   raise_loop c nc i tmp (pre @ rest) = Some (pre @ tmp # remove1 c rest)"
proof (induction rest arbitrary: i tmp pre)
  case Nil
  then show ?case by simp
next
  case (Cons d rest)
  from Cons.prems have lt: "i < nc" by (cases "i < nc") auto
  show ?case
  proof (cases "d = c")
    case True
    with lt Cons.prems(1) show ?thesis
      by (subst raise_loop.simps) (simp add: nth_append list_update_append)
  next
    case False
    from lt obtain n where n: "nc - i = Suc n" by (cases "nc - i") auto
    then have "nc - (i + 1) = n" by arith
    with Cons.prems False n have mem: "c \<in> set (take (nc - (i + 1)) rest)"
      by auto
    have "raise_loop c nc (i + 1) d ((pre @ [tmp]) @ rest) = Some ((pre @ [tmp]) @ d # remove1 c rest)"
      by (rule Cons.IH) (use Cons.prems mem in auto)
    with False lt Cons.prems(1) show ?thesis
      by (subst raise_loop.simps) (simp add: nth_append list_update_append)
  qed
qed

lemma raiseComponent_front:
  assumes le: "unat (num_components g) \<le> length (componentList g)"
    and mem: "c \<in> set (registry g)"
  shows "raiseComponent c g = Some (g\<lparr>componentList := c # remove1 c (componentList g)\<rparr>)"
proof -
  let ?nc = "unat (num_components g)"
  let ?cl = "componentList g"
  from mem have nc: "0 < ?nc" and ne: "?cl \<noteq> []"
    by (cases "?nc = 0"; auto simp: registry_def)+
  then obtain x0 rest where cl: "?cl = x0 # rest" by (cases ?cl) auto
  show ?thesis
  proof (cases "x0 = c")
    case True
    then show ?thesis by (simp add: raiseComponent_def cl Let_def)
  next
    case False
    with mem cl have r: "c \<in> set (take (?nc - 1) rest)"
      by (cases ?nc) (auto simp: registry_def)
    then have "1 < ?nc" by (cases "?nc - 1") auto
    moreover have "raise_loop c ?nc 1 x0 ([c] @ rest) = Some ([c] @ x0 # remove1 c rest)"
      by (rule raise_loop_shift) (use r in auto)
    ultimately show ?thesis using False
      by (simp add: raiseComponent_def cl Let_def)
  qed
qed

lemma remove1_split:
  assumes "c \<in> set (take n xs)"
  shows "c # remove1 c xs = (c # remove1 c (take n xs)) @ drop n xs"
proof -
  from assms show ?thesis
    using remove1_append [of c "take n xs" "drop n xs"] by simp
qed

lemma length_front_remove1:
  assumes "c \<in> set ys"
  shows "length (c # remove1 c ys) = length ys"
proof -
  from assms have "0 < length ys" by (rule length_pos_if_in_set)
  with assms show ?thesis by (simp add: length_remove1)
qed

lemma take_drop_remove1_front:
  assumes "c \<in> set (take n xs)" and "n \<le> length xs"
  shows "take n (c # remove1 c xs) = c # remove1 c (take n xs)"
    and "drop n (c # remove1 c xs) = drop n xs"
proof -
  define A where "A = c # remove1 c (take n xs)"
  have len: "length A = n"
    unfolding A_def using assms length_front_remove1 [of c "take n xs"] by simp
  have eq: "c # remove1 c xs = A @ drop n xs"
    unfolding A_def by (rule remove1_split [OF assms(1)])
  have "take n (c # remove1 c xs) = take n (A @ drop n xs)"
    by (simp only: eq)
  also have "\<dots> = A" using len by simp
  finally show "take n (c # remove1 c xs) = c # remove1 c (take n xs)"
    by (simp only: A_def)
  have "drop n (c # remove1 c xs) = drop n (A @ drop n xs)"
    by (simp only: eq)
  also have "\<dots> = drop n xs" using len by simp
  finally show "drop n (c # remove1 c xs) = drop n xs" .
qed

lemma filter_remove1_self: "filter (\<lambda>d. d \<noteq> c) (remove1 c xs) = filter (\<lambda>d. d \<noteq> c) xs"
  by (induction xs) auto

lemma raiseComponent_noop:
  assumes "c \<in> set (registry g)"
    and "unat (num_components g) \<le> 1 \<or> registry g ! 0 = c"
  shows "raiseComponent c g = Some g"
proof (cases "unat (num_components g) \<le> 1")
  case True
  then show ?thesis by (simp add: raiseComponent_def)
next
  case False
  with assms have "componentList g ! 0 = c" and "componentList g \<noteq> []"
    by (auto simp: registry_def)
  with False show ?thesis by (simp add: raiseComponent_def Let_def)
qed

text \<open>
  Claim C1, as amended. For every registry state in which \<open>c\<close> appears among the first
  \<^verbatim>\<open>num_components\<close> slots, \<^verbatim>\<open>raiseComponent(c)\<close> returns normally; afterwards the registry
  has the same multiset of components, the same length, \<open>c\<close> in slot 0 (the front of the
  list, as the function's own comment says), and the other components in their previous
  relative order; the slots past \<^verbatim>\<open>num_components\<close> are untouched; and the call changes
  nothing when \<open>c\<close> already is in slot 0 or the registry has at most one member.
\<close>

theorem raiseComponent_moves_to_front:
  assumes le: "unat (num_components g) \<le> length (componentList g)"
    and mem: "c \<in> set (registry g)"
  shows "\<exists>g'. raiseComponent c g = Some g' \<and>
           num_components g' = num_components g \<and>
           length (componentList g') = length (componentList g) \<and>
           mset (registry g') = mset (registry g) \<and>
           set (registry g') = set (registry g) \<and>
           length (registry g') = length (registry g) \<and>
           registry g' ! 0 = c \<and>
           filter (\<lambda>d. d \<noteq> c) (registry g') = filter (\<lambda>d. d \<noteq> c) (registry g) \<and>
           drop (unat (num_components g)) (componentList g') =
             drop (unat (num_components g)) (componentList g) \<and>
           (unat (num_components g) \<le> 1 \<or> registry g ! 0 = c \<longrightarrow> g' = g)"
proof -
  let ?n = "unat (num_components g)"
  let ?g' = "g\<lparr>componentList := c # remove1 c (componentList g)\<rparr>"
  from mem have mem': "c \<in> set (take ?n (componentList g))"
    by (simp add: registry_def)
  then have memcl: "c \<in> set (componentList g)" by (rule in_set_takeD)
  have run: "raiseComponent c g = Some ?g'"
    by (rule raiseComponent_front [OF le mem])
  have reg: "registry ?g' = c # remove1 c (registry g)"
    using take_drop_remove1_front(1) [OF mem' le] by (simp add: registry_def)
  have "mset (registry ?g') = mset (registry g)"
    using mem by (simp add: reg)
  moreover from this have "set (registry ?g') = set (registry g)"
    by (rule mset_eq_setD)
  moreover have "length (registry ?g') = length (registry g)"
    using mem unfolding reg by (rule length_front_remove1)
  moreover have "length (componentList ?g') = length (componentList g)"
    using length_front_remove1 [OF memcl] by simp
  moreover have "filter (\<lambda>d. d \<noteq> c) (registry ?g') = filter (\<lambda>d. d \<noteq> c) (registry g)"
    by (simp add: reg filter_remove1_self)
  moreover have "drop ?n (componentList ?g') = drop ?n (componentList g)"
    using take_drop_remove1_front(2) [OF mem' le] by simp
  moreover have "?g' = g" if "?n \<le> 1 \<or> registry g ! 0 = c"
    using raiseComponent_noop [OF mem that] run by simp
  ultimately show ?thesis
    using run by (simp add: reg)
qed

theorem raiseComponent_moves_to_front_witness:
  "unat (num_components (ctx_of 3 [10, 20, 30])) \<le> length (componentList (ctx_of 3 [10, 20, 30])) \<and>
   20 \<in> set (registry (ctx_of 3 [10, 20, 30])) \<and>
   (\<exists>g'. raiseComponent 20 (ctx_of 3 [10, 20, 30]) = Some g' \<and> registry g' ! 0 = 20 \<and>
      filter (\<lambda>d. d \<noteq> 20) (registry g') = [10, 30])"
proof -
  let ?g = "ctx_of 3 [10, 20, 30]"
  have h1: "unat (num_components ?g) \<le> length (componentList ?g)"
    by (simp add: ctx_of_def MAX_COMPONENTS_def)
  have h2: "20 \<in> set (registry ?g)"
    by (simp add: ctx_of_def registry_def)
  have r: "registry ?g = [10, 20, 30]"
    by (simp add: ctx_of_def registry_def)
  from raiseComponent_moves_to_front [OF h1 h2] h1 h2 show ?thesis
    unfolding r by auto
qed

text \<open>
  Claim C1 as stated fails: raising the component in the last slot of a three-element
  registry is not a no-op, and afterwards that component is in slot 0, not in the last slot.
\<close>

theorem raiseComponent_back_counterexample:
  "raiseComponent 30 (ctx_of 3 [10, 20, 30]) = Some (ctx_of 3 [30, 10, 20]) \<and>
   registry (ctx_of 3 [10, 20, 30]) = [10, 20, 30] \<and>
   last (registry (ctx_of 3 [30, 10, 20])) \<noteq> 30 \<and>
   ctx_of 3 [30, 10, 20] \<noteq> ctx_of 3 [10, 20, 30]"
  by (simp add: raiseComponent_def raise_loop.simps ctx_of_def registry_def MAX_COMPONENTS_def NULL_def)

subsection \<open>The dispatch loop scans the registry from slot 0\<close>

lemma unat_of_nat_u16: "k < 65536 \<Longrightarrow> unat (of_nat k :: u16) = k"
  by (simp add: unat_of_nat)

lemma index_less:
  assumes "k < unat (n :: u16)"
  shows "(of_nat k :: u16) < n" and "(of_nat k :: u16) + 1 = of_nat (Suc k)"
proof -
  have "unat n < 65536" using unsigned_less [of n, where ?'a = nat] by simp
  with assms have "k < 65536" by simp
  then have "unat (of_nat k :: u16) = k" by (rule unat_of_nat_u16)
  with assms show "(of_nat k :: u16) < n" by (simp add: word_less_nat_alt)
  show "(of_nat k :: u16) + 1 = of_nat (Suc k)" by (simp add: add.commute)
qed

lemma dispatch_skip_one:
  assumes wf: "event_wf e" and k: "k < unat (num_components (tui_globalcontext s))"
    and c: "component_at s (of_nat k) = Some c" and na: "\<not> applies e c"
  shows "dispatch_loop K M (of_nat k) e s = dispatch_loop K M (of_nat (Suc k)) e s"
  using wf c na index_less [OF k]
  by (subst dispatch_loop.simps)
     (auto simp del: of_nat_Suc simp add: event_wf_def applies_def
           split: option.splits EventKind.splits event_union.splits)

lemma dispatch_hit:
  assumes wf: "event_wf e" and k: "k < unat (num_components (tui_globalcontext s))"
    and c: "component_at s (of_nat k) = Some c" and ap: "applies e c"
  shows "dispatch_loop K M (of_nat k) e s =
     (case deliver K M e c s of
        (r, s') \<Rightarrow>
          if r \<noteq> 0 then Returned (e\<lparr>handled := Some True\<rparr>) s'
          else dispatch_loop K M (of_nat (Suc k)) (e\<lparr>handled := Some False\<rparr>) s')"
  using wf c ap index_less [OF k]
  by (subst dispatch_loop.simps)
     (auto simp del: of_nat_Suc simp add: event_wf_def applies_def deliver_def
           split: option.splits EventKind.splits event_union.splits prod.splits)

lemma dispatch_end:
  "dispatch_loop K M (num_components (tui_globalcontext s)) e s = Returned e s"
  by (subst dispatch_loop.simps) simp

lemma dispatch_skip:
  assumes wf: "event_wf e" and live: "live_registry s"
    and j: "i + d \<le> unat (num_components (tui_globalcontext s))"
    and none: "\<forall>k. i \<le> k \<and> k < i + d \<longrightarrow> \<not> candidate e s k"
  shows "dispatch_loop K M (of_nat i) e s = dispatch_loop K M (of_nat (i + d)) e s"
  using j none
proof (induction d arbitrary: i)
  case 0
  then show ?case by simp
next
  case (Suc d)
  from Suc.prems have i: "i < unat (num_components (tui_globalcontext s))" by simp
  with live have "component_at s (of_nat i) \<noteq> None"
    by (simp add: live_registry_def list_all_iff)
  then obtain c where c: "component_at s (of_nat i) = Some c" by blast
  from Suc.prems(2) have "\<not> candidate e s i" by simp
  with c have na: "\<not> applies e c" by (simp add: candidate_def)
  have "dispatch_loop K M (of_nat i) e s = dispatch_loop K M (of_nat (Suc i)) e s"
    by (rule dispatch_skip_one [OF wf i c na])
  also have "\<dots> = dispatch_loop K M (of_nat (Suc i + d)) e s"
    by (rule Suc.IH) (use Suc.prems in auto)
  finally show ?case by simp
qed

lemma filter_upt_Nil:
  "filter P [0..<n] = [] \<Longrightarrow> \<forall>k. 0 \<le> k \<and> k < 0 + n \<longrightarrow> \<not> P k"
  by (auto simp: filter_empty_conv)

lemma filter_upt_Cons:
  assumes "filter P [0..<n] = j # rest"
  shows "j < n \<and> P j \<and> (\<forall>k. 0 \<le> k \<and> k < 0 + j \<longrightarrow> \<not> P k)"
proof -
  from assms obtain us vs where split: "[0..<n] = us @ j # vs"
    and us: "\<forall>u\<in>set us. \<not> P u" and pj: "P j"
    by (auto simp: filter_eq_Cons_iff)
  have "length [0..<n] = length (us @ j # vs)" by (simp only: split)
  then have len: "length us < n" by simp
  from split have "[0..<n] ! length us = j" by simp
  with len have j: "length us = j" by simp
  from split have "take j [0..<n] = us" using j by simp
  with len j have "us = [0..<j]" by (simp add: take_upt)
  with us pj len j show ?thesis by auto
qed

lemma dispatch_first_candidate:
  assumes wf: "event_wf e" and live: "live_registry s"
  shows "dispatch_loop K M 0 e s =
     (case candidates e s of
        [] \<Rightarrow> Returned e s
      | j # rest \<Rightarrow>
          (case component_at s (of_nat j) of
             None \<Rightarrow> Undefined
           | Some c \<Rightarrow>
               (case deliver K M e c s of
                  (r, s') \<Rightarrow>
                    if r \<noteq> 0 then Returned (e\<lparr>handled := Some True\<rparr>) s'
                    else dispatch_loop K M (of_nat (Suc j)) (e\<lparr>handled := Some False\<rparr>) s')))"
proof (cases "candidates e s")
  case Nil
  let ?n = "unat (num_components (tui_globalcontext s))"
  from Nil have none: "\<forall>k. 0 \<le> k \<and> k < 0 + ?n \<longrightarrow> \<not> candidate e s k"
    unfolding candidates_def by (rule filter_upt_Nil)
  have "dispatch_loop K M (of_nat 0) e s = dispatch_loop K M (of_nat (0 + ?n)) e s"
    by (rule dispatch_skip [OF wf live _ none]) simp
  then have "dispatch_loop K M 0 e s = Returned e s"
    by (simp add: dispatch_end)
  with Nil show ?thesis by simp
next
  case (Cons j rest)
  let ?n = "unat (num_components (tui_globalcontext s))"
  from Cons have j: "j < ?n" and cj: "candidate e s j"
    and none: "\<forall>k. 0 \<le> k \<and> k < 0 + j \<longrightarrow> \<not> candidate e s k"
    unfolding candidates_def by (auto dest: filter_upt_Cons)
  from cj obtain c where c: "component_at s (of_nat j) = Some c" and ap: "applies e c"
    by (auto simp: candidate_def split: option.splits)
  have "dispatch_loop K M (of_nat 0) e s = dispatch_loop K M (of_nat (0 + j)) e s"
    by (rule dispatch_skip [OF wf live _ none]) (use j in simp)
  then have "dispatch_loop K M 0 e s = dispatch_loop K M (of_nat j) e s" by simp
  also note dispatch_hit [OF wf j c ap]
  finally show ?thesis using Cons c by simp
qed

lemma no_hit_no_candidate:
  assumes "kind e = Some MOUSE" and "members e = MouseMember m"
    and "\<forall>k < unat (num_components (tui_globalcontext s)).
           case component_at s (of_nat k) of None \<Rightarrow> True
           | Some c \<Rightarrow> \<not> inComponent c (mouse_x m) (mouse_y m)"
  shows "candidates e s = []"
  using assms
  by (auto simp: candidates_def filter_empty_conv candidate_def applies_def split: option.splits)

lemma two_boxes_at:
  "component_at two_boxes 0 = Some boxA" "component_at two_boxes 1 = Some boxB"
  "num_components (tui_globalcontext two_boxes) = 2"
  by (simp_all add: two_boxes_def with_registry_def component_at_def running_def boot_def
      NULL_def MAX_COMPONENTS_def)

lemma both_contain: "inComponent boxA 7 7" "inComponent boxB 7 7"
  by (simp_all add: inComponent_unat boxA_def boxB_def box_at_def)

lemma two_boxes_app: "app two_boxes = []"
  by (simp add: two_boxes_def with_registry_def running_def boot_def)

lemma box_handlers:
  "onClick boxA = 1" "onClick boxB = 2" "onKeypress boxA = 1" "onKeypress boxB = 2"
  by (simp_all add: boxA_def boxB_def box_at_def)

lemma upt_2: "[0..<2] = [0, Suc 0]"
  by (simp add: numeral_2_eq_2)

lemma two_boxes_candidates: "candidates (click_at 7 7) two_boxes = [0, 1]"
  by (simp add: candidates_def candidate_def applies_def two_boxes_at both_contain box_handlers
      click_at_def NULL_def upt_2)

text \<open>
  Claim C2, as amended. For every registry whose slots hold component objects and every
  Key or Mouse event, the loop considers the components from slot 0 upwards: the event
  goes first to the component with the lowest index that it applies to (for a mouse event,
  the one closest to the front among those whose rectangle contains the pointer and that
  have a click handler); if that handler accepts, no other component sees the event, and
  if it declines the loop goes on from the next slot. When the event applies to no
  component, in particular when the pointer lies in no component's rectangle, no handler
  runs and the event and the state are returned as they were.
\<close>

theorem dispatch_front_to_back:
  assumes wf: "event_wf e" and live: "live_registry s"
  shows "dispatch_loop K M 0 e s =
     (case candidates e s of
        [] \<Rightarrow> Returned e s
      | j # rest \<Rightarrow>
          (case component_at s (of_nat j) of
             None \<Rightarrow> Undefined
           | Some c \<Rightarrow>
               (case deliver K M e c s of
                  (r, s') \<Rightarrow>
                    if r \<noteq> 0 then Returned (e\<lparr>handled := Some True\<rparr>) s'
                    else dispatch_loop K M (of_nat (Suc j)) (e\<lparr>handled := Some False\<rparr>) s')))
     \<and> (\<forall>m. kind e = Some MOUSE \<and> members e = MouseMember m \<and>
            (\<forall>k < unat (num_components (tui_globalcontext s)).
               case component_at s (of_nat k) of None \<Rightarrow> True
               | Some c \<Rightarrow> \<not> inComponent c (mouse_x m) (mouse_y m))
          \<longrightarrow> dispatch_loop K M 0 e s = Returned e s)"
proof (intro conjI allI impI)
  show "dispatch_loop K M 0 e s =
     (case candidates e s of
        [] \<Rightarrow> Returned e s
      | j # rest \<Rightarrow>
          (case component_at s (of_nat j) of
             None \<Rightarrow> Undefined
           | Some c \<Rightarrow>
               (case deliver K M e c s of
                  (r, s') \<Rightarrow>
                    if r \<noteq> 0 then Returned (e\<lparr>handled := Some True\<rparr>) s'
                    else dispatch_loop K M (of_nat (Suc j)) (e\<lparr>handled := Some False\<rparr>) s')))"
    by (rule dispatch_first_candidate [OF wf live])
next
  fix m
  assume "kind e = Some MOUSE \<and> members e = MouseMember m \<and>
            (\<forall>k < unat (num_components (tui_globalcontext s)).
               case component_at s (of_nat k) of None \<Rightarrow> True
               | Some c \<Rightarrow> \<not> inComponent c (mouse_x m) (mouse_y m))"
  then have "candidates e s = []" by (intro no_hit_no_candidate) auto
  then show "dispatch_loop K M 0 e s = Returned e s"
    by (simp add: dispatch_first_candidate [OF wf live])
qed

theorem dispatch_front_to_back_witness:
  "event_wf (click_at 7 7) \<and> live_registry two_boxes \<and>
   candidates (click_at 7 7) two_boxes = [0, 1] \<and>
   dispatch_loop K_log M_log 0 (click_at 7 7) two_boxes =
     Returned ((click_at 7 7)\<lparr>handled := Some True\<rparr>) (two_boxes\<lparr>app := [1]\<rparr>)"
proof -
  have wf: "event_wf (click_at 7 7)"
    by (simp add: event_wf_def click_at_def)
  have live: "live_registry two_boxes"
    by (simp add: live_registry_def two_boxes_at upt_2)
  have "dispatch_loop K_log M_log 0 (click_at 7 7) two_boxes =
      (case deliver K_log M_log (click_at 7 7) boxA two_boxes of
         (r, s') \<Rightarrow>
           if r \<noteq> 0 then Returned ((click_at 7 7)\<lparr>handled := Some True\<rparr>) s'
           else dispatch_loop K_log M_log (of_nat (Suc 0)) ((click_at 7 7)\<lparr>handled := Some False\<rparr>) s')"
    using dispatch_front_to_back [OF wf live, of K_log M_log]
    by (simp add: two_boxes_candidates two_boxes_at)
  then have "dispatch_loop K_log M_log 0 (click_at 7 7) two_boxes =
     Returned ((click_at 7 7)\<lparr>handled := Some True\<rparr>) (two_boxes\<lparr>app := [1]\<rparr>)"
    by (simp add: deliver_def click_at_def M_log_def two_boxes_app box_handlers)
  with wf live two_boxes_candidates show ?thesis by simp
qed

text \<open>
  Claim C2 as stated fails: with \<open>boxA\<close> in slot 0 and \<open>boxB\<close> in slot 1, both containing
  the point (7,7), the click is delivered to \<open>boxA\<close>, the component closer to the front, and
  \<open>boxB\<close> never receives it.
\<close>

theorem dispatch_back_first_counterexample:
  "registry (tui_globalcontext two_boxes) = [10, 20] \<and>
   objects two_boxes 10 = Some boxA \<and> objects two_boxes 20 = Some boxB \<and>
   inComponent boxA 7 7 \<and> inComponent boxB 7 7 \<and>
   onClick boxA = 1 \<and> onClick boxB = 2 \<and>
   dispatch_loop K_log M_log 0 (click_at 7 7) two_boxes =
     Returned ((click_at 7 7)\<lparr>handled := Some True\<rparr>) (two_boxes\<lparr>app := [1]\<rparr>)"
proof -
  have "dispatch_loop K_log M_log 0 (click_at 7 7) two_boxes =
     Returned ((click_at 7 7)\<lparr>handled := Some True\<rparr>) (two_boxes\<lparr>app := [1]\<rparr>)"
    by (subst dispatch_loop.simps)
       (simp add: two_boxes_at two_boxes_app both_contain box_handlers click_at_def M_log_def
          NULL_def)
  moreover have "registry (tui_globalcontext two_boxes) = [10, 20]"
    by (simp add: registry_def two_boxes_def with_registry_def running_def boot_def)
  moreover have "objects two_boxes 10 = Some boxA" "objects two_boxes 20 = Some boxB"
    by (simp_all add: two_boxes_def with_registry_def)
  ultimately show ?thesis using both_contain box_handlers by simp
qed

subsection \<open>The guards of \<^verbatim>\<open>handle_event\<close> and its unassigned event\<close>

lemma handle_event_inactive:
  "tui_active s = 0 \<Longrightarrow> handle_event K M R s = tui_error ''Root component not initialized.'' s"
  by (simp add: handle_event_def)

lemma handle_event_rooted:
  "tui_active s \<noteq> 0 \<Longrightarrow> rootComponent (tui_globalcontext s) \<noteq> NULL \<Longrightarrow>
   handle_event K M R s = tui_error ''Tui is not active.'' s"
  by (simp add: handle_event_def)

lemma handle_event_raw:
  "tui_active s \<noteq> 0 \<Longrightarrow> rootComponent (tui_globalcontext s) = NULL \<Longrightarrow>
   \<not> exiting (tui_globalcontext s) \<Longrightarrow> \<not> needs_resize (tui_globalcontext s) \<Longrightarrow>
   handle_event K M R s = dispatch_loop K M 0 e_unassigned s"
  by (simp add: handle_event_def e_unassigned_def)

lemma handle_event_resize_unrooted:
  "tui_active s \<noteq> 0 \<Longrightarrow> rootComponent (tui_globalcontext s) = NULL \<Longrightarrow>
   \<not> exiting (tui_globalcontext s) \<Longrightarrow> needs_resize (tui_globalcontext s) \<Longrightarrow>
   handle_event K M R s = Undefined"
  by (simp add: handle_event_def Let_def updateSize_def)

lemma dispatch_unassigned:
  "dispatch_loop K M 0 e_unassigned s =
     (if 0 < num_components (tui_globalcontext s) then Undefined else Returned e_unassigned s)"
  by (subst dispatch_loop.simps) (simp add: e_unassigned_def)

lemma tui_error_exits:
  "\<exists>s'. (tui_error msg s :: ('r, 'a) outcome) = Exited 1 s' \<and> tui_active s' = 0 \<and>
     tui_globalcontext s' = tui_globalcontext s \<and>
     last (trace (os s')) = Sys_stderr (msg @ [CHR 0x0A])"
  by (simp add: tui_error_def Let_def sys_stderr_def tui_deinit_def)

lemma fixture_flags:
  "tui_active running = 1" "rootComponent (tui_globalcontext running) = NULL"
  "\<not> exiting (tui_globalcontext running)" "\<not> needs_resize (tui_globalcontext running)"
  "num_components (tui_globalcontext running) = 0"
  "tui_active rooted = 1" "rootComponent (tui_globalcontext rooted) = 10"
  "tui_active two_boxes = 1" "rootComponent (tui_globalcontext two_boxes) = NULL"
  "\<not> exiting (tui_globalcontext two_boxes)" "\<not> needs_resize (tui_globalcontext two_boxes)"
  "tui_active one_plain_box = 1" "rootComponent (tui_globalcontext one_plain_box) = NULL"
  "\<not> exiting (tui_globalcontext one_plain_box)" "\<not> needs_resize (tui_globalcontext one_plain_box)"
  "num_components (tui_globalcontext one_plain_box) = 1"
  "tui_active resize_pending = 1" "rootComponent (tui_globalcontext resize_pending) = 10"
  "\<not> exiting (tui_globalcontext resize_pending)" "needs_resize (tui_globalcontext resize_pending)"
  "tui_active resize_pending_unrooted = 1"
  "rootComponent (tui_globalcontext resize_pending_unrooted) = NULL"
  "\<not> exiting (tui_globalcontext resize_pending_unrooted)"
  "needs_resize (tui_globalcontext resize_pending_unrooted)"
  by (simp_all add: running_def boot_def rooted_def two_boxes_def one_plain_box_def
      resize_pending_def resize_pending_unrooted_def with_registry_def NULL_def)

text \<open>
  Claim C3 does not hold of the code. A call before \<^verbatim>\<open>tui_init\<close> reports an error and
  exits with status 1, as the claim says. But the second guard of \<^verbatim>\<open>handle_event\<close> tests
  \<^verbatim>\<open>if (tui_globalcontext.rootComponent)\<close>: with the runtime active and a root component
  assigned the call reports "Tui is not active." and exits with status 1, and with the
  runtime active and no root component it raises no error and goes on to the dispatch.
\<close>

theorem handle_event_root_guard_inverted:
  "tui_active boot = 0 \<and>
   (\<exists>s'. handle_event K M R boot = Exited 1 s' \<and>
      last (trace (os s')) = Sys_stderr (''Root component not initialized.'' @ [CHR 0x0A])) \<and>
   tui_active rooted = 1 \<and> rootComponent (tui_globalcontext rooted) = 10 \<and>
   (\<exists>s'. handle_event K M R rooted = Exited 1 s' \<and> tui_active s' = 0 \<and>
      last (trace (os s')) = Sys_stderr (''Tui is not active.'' @ [CHR 0x0A])) \<and>
   tui_active running = 1 \<and> rootComponent (tui_globalcontext running) = NULL \<and>
   handle_event K M R running = Returned e_unassigned running"
proof -
  have "handle_event K M R rooted = tui_error ''Tui is not active.'' rooted"
    by (rule handle_event_rooted) (simp_all add: fixture_flags NULL_def)
  then have "\<exists>s'. handle_event K M R rooted = Exited 1 s' \<and> tui_active s' = 0 \<and>
      last (trace (os s')) = Sys_stderr (''Tui is not active.'' @ [CHR 0x0A])"
    using tui_error_exits [of "''Tui is not active.''" rooted] by auto
  moreover have "handle_event K M R running = Returned e_unassigned running"
    by (simp add: handle_event_raw dispatch_unassigned fixture_flags)
  moreover have "tui_active boot = 0" by (simp add: boot_def)
  moreover from this have "\<exists>s'. handle_event K M R boot = Exited 1 s' \<and>
      last (trace (os s')) = Sys_stderr (''Root component not initialized.'' @ [CHR 0x0A])"
    using tui_error_exits [of "''Root component not initialized.''" boot]
    by (auto simp: handle_event_inactive)
  ultimately show ?thesis by (simp add: fixture_flags)
qed

text \<open>
  Claim C4 does not hold of the code. In a state that is active, has a root component, has
  \<^verbatim>\<open>_exiting\<close> clear and \<^verbatim>\<open>_needs_resize\<close> set, the call exits through the second guard:
  the latch stays set and no \<^verbatim>\<open>Resize\<close> event is returned. Without a root component the
  resize branch is reached and calls \<^verbatim>\<open>resize\<close> through the \<^verbatim>\<open>NULL\<close> root pointer.
\<close>

theorem handle_event_resize_unreachable:
  "tui_active resize_pending = 1 \<and> rootComponent (tui_globalcontext resize_pending) = 10 \<and>
   \<not> exiting (tui_globalcontext resize_pending) \<and> needs_resize (tui_globalcontext resize_pending) \<and>
   (\<exists>s'. handle_event K M R resize_pending = Exited 1 s' \<and>
      needs_resize (tui_globalcontext s') \<and>
      last (trace (os s')) = Sys_stderr (''Tui is not active.'' @ [CHR 0x0A])) \<and>
   handle_event K M R resize_pending_unrooted = Undefined"
proof -
  have "handle_event K M R resize_pending = tui_error ''Tui is not active.'' resize_pending"
    by (rule handle_event_rooted) (simp_all add: fixture_flags NULL_def)
  then have "\<exists>s'. handle_event K M R resize_pending = Exited 1 s' \<and>
      needs_resize (tui_globalcontext s') \<and>
      last (trace (os s')) = Sys_stderr (''Tui is not active.'' @ [CHR 0x0A])"
    using tui_error_exits [of "''Tui is not active.''" resize_pending]
    by (auto simp: fixture_flags)
  moreover have "handle_event K M R resize_pending_unrooted = Undefined"
    by (rule handle_event_resize_unrooted) (simp_all add: fixture_flags)
  ultimately show ?thesis by (simp add: fixture_flags)
qed

text \<open>
  A key event for which no registered component has a keypress handler passes through
  the loop without a call and without a change: what the loop returns is the event it was
  given.
\<close>

lemma dispatch_no_keypress_handler:
  assumes key: "kind e = Some KEY" "members e = KeyMember k" and live: "live_registry s"
    and none: "\<forall>j < unat (num_components (tui_globalcontext s)).
           case component_at s (of_nat j) of None \<Rightarrow> True | Some c \<Rightarrow> onKeypress c = NULL"
  shows "dispatch_loop K M 0 e s = Returned e s"
proof -
  from key have wf: "event_wf e" by (simp add: event_wf_def)
  from key none have "candidates e s = []"
    by (auto simp: candidates_def filter_empty_conv candidate_def applies_def
        split: option.splits)
  then show ?thesis by (simp add: dispatch_first_candidate [OF wf live])
qed

text \<open>
  Claim C8 does not hold of the code. With one registered component that has no keypress
  handler, \<^verbatim>\<open>handle_event\<close> reads \<^verbatim>\<open>e.kind\<close> although nothing has assigned it. Were the
  event a key press, the loop would call no handler and leave the state as it is, but it
  would not assign \<^verbatim>\<open>handled\<close> either: the flag comes back as it went in, which in
  \<^verbatim>\<open>handle_event\<close> is unassigned, not false.
\<close>

theorem handle_event_key_unhandled_flag:
  "handle_event K M R one_plain_box = Undefined \<and>
   handled (key_press 0x61) = None \<and>
   dispatch_loop K M 0 (key_press 0x61) one_plain_box = Returned (key_press 0x61) one_plain_box"
proof -
  have "handle_event K M R one_plain_box = Undefined"
    by (simp add: handle_event_raw dispatch_unassigned fixture_flags)
  moreover have "dispatch_loop K M 0 (key_press 0x61) one_plain_box =
      Returned (key_press 0x61) one_plain_box"
    by (subst dispatch_loop.simps, subst dispatch_loop.simps)
       (simp add: fixture_flags key_press_def component_at_def one_plain_box_def
          with_registry_def box_at_def NULL_def)
  ultimately show ?thesis by (simp add: key_press_def)
qed

text \<open>
  Claim C10 does not hold of the code. On the raw-input path with an empty registry the
  call returns the local event with neither \<^verbatim>\<open>kind\<close> nor \<^verbatim>\<open>handled\<close> assigned, and with a
  non-empty registry it reads \<^verbatim>\<open>e.kind\<close> before any assignment.
\<close>

theorem handle_event_event_unassigned:
  "handle_event K M R running = Returned e_unassigned running \<and>
   kind e_unassigned = None \<and> handled e_unassigned = None \<and>
   handle_event K M R two_boxes = Undefined"
proof -
  have "handle_event K M R running = Returned e_unassigned running"
    by (simp add: handle_event_raw dispatch_unassigned fixture_flags)
  moreover have "handle_event K M R two_boxes = Undefined"
    by (simp add: handle_event_raw dispatch_unassigned fixture_flags two_boxes_at)
  moreover have "kind e_unassigned = None" and "handled e_unassigned = None"
    by (simp_all add: e_unassigned_def)
  ultimately show ?thesis by simp
qed

subsection \<open>\<^verbatim>\<open>tui_deinit\<close> is idempotent\<close>

lemma tui_init_boot: "tui_init 100 boot = Returned () running"
  by (simp add: tui_init_def boot_def running_def os0_def sys_tcsetattr_def sys_write_def
      sys_setlocale_def sys_signal_def disposition_def updateSize_def Let_def ECHO_def ICANON_def
      NULL_def MAX_COMPONENTS_def)

lemma tui_deinit_inactive: "tui_active s = 0 \<Longrightarrow> tui_deinit s = s"
  by (simp add: tui_deinit_def)

lemma tui_deinit_clears: "tui_active (tui_deinit s) = 0"
  by (simp add: tui_deinit_def Let_def)

lemma tui_deinit_twice: "tui_deinit (tui_deinit s) = tui_deinit s"
  by (rule tui_deinit_inactive) (rule tui_deinit_clears)

lemma tui_deinit_funpow: "(tui_deinit ^^ Suc n) s = tui_deinit s"
  by (induction n) (simp_all add: tui_deinit_twice)

lemma tui_deinit_trace:
  "tui_active s \<noteq> 0 \<Longrightarrow>
   trace (os (tui_deinit s)) = trace (os s) @
     [Sys_signal SIGINT (old_sigint s), Sys_signal SIGTERM (old_sigterm s),
      Sys_signal SIGWINCH (old_sigwinch s), Sys_tcsetattr (old_tio s)]
     @ (case old_locale s of None \<Rightarrow> [] | Some n \<Rightarrow> [Sys_setlocale n])
     @ [Sys_write restore_term]"
  by (simp add: tui_deinit_def Let_def sys_signal_def sys_tcsetattr_def sys_setlocale_def
      sys_write_def split: option.split)

lemma tui_deinit_restores:
  "tui_active s \<noteq> 0 \<Longrightarrow>
   tio (os (tui_deinit s)) = old_tio s \<and>
   disp_sigint (os (tui_deinit s)) = old_sigint s \<and>
   disp_sigterm (os (tui_deinit s)) = old_sigterm s \<and>
   disp_sigwinch (os (tui_deinit s)) = old_sigwinch s"
  by (simp add: tui_deinit_def Let_def sys_signal_def sys_tcsetattr_def sys_setlocale_def
      sys_write_def split: option.split)

text \<open>
  Claim C6. Any number of calls of \<^verbatim>\<open>tui_deinit\<close>, one or more, leave the state that the
  first call leaves. A call in an inactive state changes nothing, so it makes no call of
  \<^verbatim>\<open>signal\<close>, \<^verbatim>\<open>tcsetattr\<close> or \<^verbatim>\<open>write\<close>. A call in an active state makes the runtime
  inactive and appends to the trace exactly one \<^verbatim>\<open>signal\<close> call for each of the three
  signals, with the saved handler, one \<^verbatim>\<open>tcsetattr\<close> with the saved terminal mode, the
  locale reset and one \<^verbatim>\<open>write\<close> of the restore sequence; afterwards the terminal mode and
  the three dispositions are the saved ones.
\<close>

theorem tui_deinit_idempotent:
  "(tui_deinit ^^ Suc n) s = tui_deinit s \<and>
   tui_active (tui_deinit s) = 0 \<and>
   (tui_active s = 0 \<longrightarrow> tui_deinit s = s) \<and>
   (tui_active s \<noteq> 0 \<longrightarrow>
      trace (os (tui_deinit s)) = trace (os s) @
        [Sys_signal SIGINT (old_sigint s), Sys_signal SIGTERM (old_sigterm s),
         Sys_signal SIGWINCH (old_sigwinch s), Sys_tcsetattr (old_tio s)]
        @ (case old_locale s of None \<Rightarrow> [] | Some n \<Rightarrow> [Sys_setlocale n])
        @ [Sys_write restore_term] \<and>
      tio (os (tui_deinit s)) = old_tio s \<and>
      disp_sigint (os (tui_deinit s)) = old_sigint s \<and>
      disp_sigterm (os (tui_deinit s)) = old_sigterm s \<and>
      disp_sigwinch (os (tui_deinit s)) = old_sigwinch s)"
  using tui_deinit_funpow [of n s] tui_deinit_clears [of s] tui_deinit_inactive [of s]
    tui_deinit_trace [of s] tui_deinit_restores [of s]
  by blast

theorem tui_deinit_idempotent_witness:
  "tui_init 100 boot = Returned () running \<and> tui_active running \<noteq> 0 \<and>
   (tui_deinit ^^ 3) running = tui_deinit running \<and>
   tio (os (tui_deinit running)) = tio os0 \<and>
   disp_sigint (os (tui_deinit running)) = disp_sigint os0 \<and>
   disp_sigterm (os (tui_deinit running)) = disp_sigterm os0 \<and>
   disp_sigwinch (os (tui_deinit running)) = disp_sigwinch os0 \<and>
   trace (os ((tui_deinit ^^ 3) running)) = trace (os running) @
     [Sys_signal SIGINT SIG_DFL, Sys_signal SIGTERM SIG_DFL, Sys_signal SIGWINCH SIG_IGN,
      Sys_tcsetattr (tio os0), Sys_setlocale ''C'', Sys_write restore_term] \<and>
   tui_active (tui_deinit running) = 0 \<and>
   tui_deinit (tui_deinit running) = tui_deinit running"
proof -
  have act: "tui_active running \<noteq> 0" by (simp add: running_def)
  have old: "old_tio running = tio os0" "old_sigint running = SIG_DFL"
    "old_sigterm running = SIG_DFL" "old_sigwinch running = SIG_IGN"
    "old_locale running = Some ''C''"
    "disp_sigint os0 = SIG_DFL" "disp_sigterm os0 = SIG_DFL" "disp_sigwinch os0 = SIG_IGN"
    by (simp_all add: running_def boot_def os0_def)
  have three: "(3 :: nat) = Suc 2" by simp
  from tui_deinit_idempotent [of 2 running] have
    a: "(tui_deinit ^^ 3) running = tui_deinit running"
    and b: "tui_active (tui_deinit running) = 0"
    and c: "tui_active running \<noteq> 0 \<longrightarrow>
      trace (os (tui_deinit running)) = trace (os running) @
        [Sys_signal SIGINT (old_sigint running), Sys_signal SIGTERM (old_sigterm running),
         Sys_signal SIGWINCH (old_sigwinch running), Sys_tcsetattr (old_tio running)]
        @ (case old_locale running of None \<Rightarrow> [] | Some n \<Rightarrow> [Sys_setlocale n])
        @ [Sys_write restore_term] \<and>
      tio (os (tui_deinit running)) = old_tio running \<and>
      disp_sigint (os (tui_deinit running)) = old_sigint running \<and>
      disp_sigterm (os (tui_deinit running)) = old_sigterm running \<and>
      disp_sigwinch (os (tui_deinit running)) = old_sigwinch running"
    unfolding three by blast+
  from tui_deinit_idempotent [of 0 "tui_deinit running"] b
  have d: "tui_deinit (tui_deinit running) = tui_deinit running" by blast
  from c act show ?thesis
    by (simp only: a b d old tui_init_boot) simp
qed

subsection \<open>An unencodable character becomes U+FFFD\<close>

lemma utf8_replacement: "utf8_encode 0xFFFD = replacement_char"
  by (simp add: utf8_encode_def replacement_char_def)

lemma store_bytes_take:
  assumes "length bs \<le> length buf" and "n \<le> length bs"
  shows "\<exists>buf'. store_bytes bs buf = Some buf' \<and> length buf' = length buf \<and>
           take n buf' = map Some (take n bs)"
  using assms by (simp add: store_bytes_def take_map)

lemma size_t_of_count:
  assumes "0 \<le> sint (r :: cint)"
  shows "nat (sint r mod 18446744073709551616) = nat (sint r)"
proof -
  have "sint r < 2 ^ 31" using sint_lt [of r] by simp
  then have "sint r < 2 ^ 64" by simp
  with assms have "sint r mod 2 ^ 64 = sint r" by simp
  then show ?thesis by simp
qed

lemma encode_cell_replacement:
  assumes "fst (wctomb L ch) = - 1" and "length (snd (wctomb L ch)) \<le> 64"
  shows "encode_cell L ch = Some replacement_char"
proof -
  obtain r stored where w: "wctomb L ch = (r, stored)" by (cases "wctomb L ch")
  with assms have r: "r = - 1" and len: "length stored \<le> 64" by simp_all
  from store_bytes_take [of stored "replicate 64 None" 0] len
  obtain buf1 where b1: "store_bytes stored (replicate 64 None) = Some buf1"
    and l1: "length buf1 = 64" by auto
  from store_bytes_take [of "replacement_char @ [0]" buf1 3] l1
  obtain buf2 where b2: "store_bytes (replacement_char @ [0]) buf1 = Some buf2"
    and l2: "length buf2 = 64" and t2: "take 3 buf2 = map Some replacement_char"
    by (auto simp: replacement_char_def)
  have three: "nat (sint (of_nat (length replacement_char) :: cint) mod 18446744073709551616) = 3"
    by (simp add: replacement_char_def)
  have "None \<notin> set (take 3 buf2)" by (auto simp: t2)
  moreover have "map the (take 3 buf2) = replacement_char" by (simp add: t2 comp_def)
  ultimately show ?thesis
    unfolding encode_cell_def Let_def w prod.case r b1 option.case
    by (simp add: b2 three l2)
qed

lemma encode_cell_plain:
  assumes "wctomb L ch = (r, stored)" and "r \<noteq> - 1" and "0 \<le> sint r"
    and "nat (sint r) \<le> length stored" and "length stored \<le> 64"
  shows "encode_cell L ch = Some (take (nat (sint r)) stored)"
proof -
  from store_bytes_take [of stored "replicate 64 None" "nat (sint r)"] assms
  obtain buf1 where b1: "store_bytes stored (replicate 64 None) = Some buf1"
    and l1: "length buf1 = 64"
    and t1: "take (nat (sint r)) buf1 = map Some (take (nat (sint r)) stored)" by auto
  have "None \<notin> set (take (nat (sint r)) buf1)" by (auto simp: t1)
  moreover have "map the (take (nat (sint r)) buf1) = take (nat (sint r)) stored"
    by (simp add: t1 comp_def)
  moreover have "nat (sint r) \<le> 64" using assms by simp
  ultimately show ?thesis
    unfolding encode_cell_def Let_def assms(1) prod.case b1 option.case
    using assms(2) by (simp add: size_t_of_count [OF assms(3)] l1)
qed

lemma encode_cell_total:
  assumes "wctomb_ok L"
  shows "\<exists>bytes. encode_cell L ch = Some bytes"
proof -
  obtain r stored where w: "wctomb L ch = (r, stored)" by (cases "wctomb L ch")
  from assms have ok: "length stored \<le> 64 \<and> (r = - 1 \<or> (0 \<le> sint r \<and> nat (sint r) \<le> length stored))"
    unfolding wctomb_ok_def using w by (metis (mono_tags, lifting) case_prod_conv)
  show ?thesis
  proof (cases "r = - 1")
    case True
    with w ok show ?thesis by (simp add: encode_cell_replacement)
  next
    case False
    with w ok show ?thesis by (simp add: encode_cell_plain)
  qed
qed

text \<open>
  Claim C9. When \<^verbatim>\<open>wctomb\<close> returns \<open>-1\<close> for the character of a cell (whatever it has
  stored in the buffer before failing), the bytes handed to \<^verbatim>\<open>tmt_write\<close> for that cell are
  exactly the UTF-8 encoding of U+FFFD, once: the round of the column loop for that cell
  appends this one call to the output and goes on to the next column.
\<close>

theorem unencodable_cell_replaced:
  assumes fail: "fst (wctomb L ch) = - 1" and fits: "length (snd (wctomb L ch)) \<le> 64"
    and col: "cnum < m" and line: "current_line L g st lnum = Some line"
    and cell: "cnum < length (chars line)" "ch_c (chars line ! cnum) = ch"
    and tmt: "tmt \<noteq> NULL" "terminals st tmt = Some vt"
  shows "encode_cell L ch = Some (utf8_encode 0xFFFD) \<and>
     writescreen_cols L g tmt lnum cnum m st =
       writescreen_cols L g tmt lnum (cnum + 1) m
         (st\<lparr>terminals := (terminals st)(tmt \<mapsto> tmt_write L vt (utf8_encode 0xFFFD)),
             written := written st @ [(tmt, utf8_encode 0xFFFD)]\<rparr>)"
proof -
  have enc: "encode_cell L ch = Some (utf8_encode 0xFFFD)"
    using encode_cell_replacement [OF fail fits] by (simp add: utf8_replacement)
  moreover have "writescreen_cols L g tmt lnum cnum m st =
       writescreen_cols L g tmt lnum (cnum + 1) m
         (st\<lparr>terminals := (terminals st)(tmt \<mapsto> tmt_write L vt (utf8_encode 0xFFFD)),
             written := written st @ [(tmt, utf8_encode 0xFFFD)]\<rparr>)"
    using col line cell tmt enc
    by (subst writescreen_cols.simps) (simp add: Let_def tmt_write_call_def)
  ultimately show ?thesis by simp
qed

lemma demo_keeps_grid: "keeps_grid demo_lib"
  by (simp add: keeps_grid_def demo_lib_def)

lemma demo_wctomb_ok: "wctomb_ok demo_lib"
  by (simp add: wctomb_ok_def demo_lib_def ascii_wctomb_def)

lemma demo_encode:
  "encode_cell demo_lib 0x41 = Some [0x41]" "encode_cell demo_lib 0x20AC = Some replacement_char"
proof -
  have "encode_cell demo_lib 0x41 = Some (take (nat (sint (1 :: cint))) [0x41])"
    by (rule encode_cell_plain) (simp_all add: demo_lib_def ascii_wctomb_def)
  then show "encode_cell demo_lib 0x41 = Some [0x41]" by simp
  show "encode_cell demo_lib 0x20AC = Some replacement_char"
    by (rule encode_cell_replacement) (simp_all add: demo_lib_def ascii_wctomb_def)
qed

lemma demo_run:
  "writescreen demo_lib demo_ctx 100 demo_st =
     Some \<lparr>terminals = [100 \<mapsto> (demo_screen, 0x41 # replacement_char)],
           written = [(100, [0x41]), (100, replacement_char)]\<rparr>"
  by (simp add: writescreen_def writescreen_lines.simps writescreen_cols.simps current_line_def
      tmt_write_call_def demo_encode demo_st_def demo_ctx_def NULL_def Let_def plain_cell_def
      demo_screen_def demo_lib_def [THEN arg_cong [where f = tmt_screen], simplified]
      demo_lib_def [THEN arg_cong [where f = tmt_write], simplified])

lemma demo_dirty:
  "\<not> line_dirty demo_lib demo_ctx demo_st 0" "line_dirty demo_lib demo_ctx demo_st 1"
  "line_dirty demo_lib demo_ctx
     \<lparr>terminals = [100 \<mapsto> (demo_screen, 0x41 # replacement_char)],
      written = [(100, [0x41]), (100, replacement_char)]\<rparr> 1"
  by (simp_all add: line_dirty_def current_line_def demo_st_def demo_ctx_def NULL_def Let_def
      demo_screen_def demo_lib_def [THEN arg_cong [where f = tmt_screen], simplified])

lemma demo_grid_ok: "grid_ok (tmt_screen demo_lib (demo_screen, []))"
  by (simp add: grid_ok_def demo_screen_def less_Suc_eq numeral_2_eq_2
      demo_lib_def [THEN arg_cong [where f = tmt_screen], simplified])

theorem unencodable_cell_replaced_witness:
  "fst (wctomb demo_lib 0x20AC) = - 1 \<and> length (snd (wctomb demo_lib 0x20AC)) \<le> 64 \<and>
   current_line demo_lib demo_ctx demo_st 1 =
     Some \<lparr>dirty = True, chars = [plain_cell 0x41, plain_cell 0x20AC]\<rparr> \<and>
   terminals demo_st 100 = Some (demo_screen, []) \<and>
   encode_cell demo_lib 0x20AC = Some [0xEF, 0xBF, 0xBD] \<and>
   writescreen_cols demo_lib demo_ctx 100 1 1 2 demo_st =
     Some \<lparr>terminals = [100 \<mapsto> (demo_screen, [0xEF, 0xBF, 0xBD])],
           written = [(100, [0xEF, 0xBF, 0xBD])]\<rparr>"
proof -
  have h1: "fst (wctomb demo_lib 0x20AC) = - 1" and h2: "length (snd (wctomb demo_lib 0x20AC)) \<le> 64"
    by (simp_all add: demo_lib_def ascii_wctomb_def)
  have h3: "(1 :: nat) < 2" by simp
  have h4: "current_line demo_lib demo_ctx demo_st 1 =
     Some \<lparr>dirty = True, chars = [plain_cell 0x41, plain_cell 0x20AC]\<rparr>"
    by (simp add: current_line_def demo_st_def demo_ctx_def NULL_def Let_def demo_screen_def
      demo_lib_def [THEN arg_cong [where f = tmt_screen], simplified])
  have h5: "1 < length (chars \<lparr>dirty = True, chars = [plain_cell 0x41, plain_cell 0x20AC]\<rparr>)"
    and h6: "ch_c (chars \<lparr>dirty = True, chars = [plain_cell 0x41, plain_cell 0x20AC]\<rparr> ! 1) = 0x20AC"
    by (simp_all add: plain_cell_def)
  have h7: "(100 :: nat) \<noteq> NULL" by (simp add: NULL_def)
  have h8: "terminals demo_st 100 = Some (demo_screen, [])" by (simp add: demo_st_def)
  have u: "utf8_encode 0xFFFD = [0xEF, 0xBF, 0xBD]"
    by (simp add: utf8_encode_def)
  have stop: "writescreen_cols demo_lib demo_ctx 100 k n n st = Some st" for k n st
    by (subst writescreen_cols.simps) simp
  from unencodable_cell_replaced [OF h1 h2 h3 h4 h5 h6 h7 h8]
  have "encode_cell demo_lib 0x20AC = Some [0xEF, 0xBF, 0xBD]"
    and "writescreen_cols demo_lib demo_ctx 100 1 1 2 demo_st =
     Some \<lparr>terminals = [100 \<mapsto> (demo_screen, [0xEF, 0xBF, 0xBD])],
           written = [(100, [0xEF, 0xBF, 0xBD])]\<rparr>"
    by (simp_all add: u stop demo_st_def numeral_2_eq_2
        demo_lib_def [THEN arg_cong [where f = tmt_write], simplified])
  with h1 h2 h4 h8 show ?thesis by simp
qed

subsection \<open>\<^verbatim>\<open>writescreen\<close> skips clean lines and cleans none\<close>

lemma grid_inv_write:
  assumes kg: "keeps_grid L" and inv: "grid_inv L g tmt n m D st"
  shows "\<exists>st'. tmt_write_call L tmt bytes st = Some st' \<and> grid_inv L g tmt n m D st'"
proof -
  from inv obtain vt where vt: "terminals st tmt = Some vt" and nn: "tmt \<noteq> NULL"
    by (auto simp: grid_inv_def)
  let ?st' = "st\<lparr>terminals := (terminals st)(tmt \<mapsto> tmt_write L vt bytes),
                 written := written st @ [(tmt, bytes)]\<rparr>"
  have run: "tmt_write_call L tmt bytes st = Some ?st'"
    using vt nn by (simp add: tmt_write_call_def)
  have "grid_inv L g tmt n m D ?st'"
  proof (cases "screen g = tmt")
    case False
    with inv show ?thesis by (simp add: grid_inv_def)
  next
    case True
    let ?a = "lines (tmt_screen L vt)"
    let ?b = "lines (tmt_screen L (tmt_write L vt bytes))"
    from kg have len: "length ?b = length ?a"
      and row: "\<And>l. l < length ?a \<Longrightarrow>
        length (chars (?b ! l)) = length (chars (?a ! l)) \<and> (dirty (?a ! l) \<longrightarrow> dirty (?b ! l))"
      unfolding keeps_grid_def Let_def by blast+
    from inv True vt have n: "n \<le> length ?a"
      and old: "\<And>l. l < n \<Longrightarrow> m \<le> length (chars (?a ! l)) \<and> (D l \<longrightarrow> dirty (?a ! l))"
      by (auto simp: grid_inv_def)
    have "m \<le> length (chars (?b ! l)) \<and> (D l \<longrightarrow> dirty (?b ! l))" if "l < n" for l
    proof -
      from that n have "l < length ?a" by simp
      from row [OF this] old [OF that] show ?thesis by simp
    qed
    with n len nn True show ?thesis by (simp add: grid_inv_def)
  qed
  with run show ?thesis by blast
qed

lemma grid_inv_line:
  assumes "grid_inv L g tmt n m D st" and "lnum < n"
  shows "\<exists>line. current_line L g st lnum = Some line \<and> m \<le> length (chars line) \<and>
           (D lnum \<longrightarrow> dirty line)"
  using assms by (auto simp: grid_inv_def current_line_def Let_def split: option.splits)

lemma writescreen_cols_inv:
  assumes kg: "keeps_grid L" and wc: "wctomb_ok L" and lnum: "lnum < n"
  shows "grid_inv L g tmt n m D st \<Longrightarrow> cnum + d = m \<Longrightarrow>
     \<exists>st'. writescreen_cols L g tmt lnum cnum m st = Some st' \<and> grid_inv L g tmt n m D st'"
proof (induction d arbitrary: cnum st)
  case 0
  then show ?case by (subst writescreen_cols.simps) simp
next
  case (Suc d)
  from grid_inv_line [OF Suc.prems(1) lnum]
  obtain line where line: "current_line L g st lnum = Some line" and w: "m \<le> length (chars line)"
    by blast
  from Suc.prems(2) w have c: "cnum < m" "cnum < length (chars line)" by simp_all
  from encode_cell_total [OF wc]
  obtain bytes where enc: "encode_cell L (ch_c (chars line ! cnum)) = Some bytes" by blast
  from grid_inv_write [OF kg Suc.prems(1)]
  obtain st1 where wr: "tmt_write_call L tmt bytes st = Some st1"
    and inv1: "grid_inv L g tmt n m D st1" by blast
  from Suc.prems(2) have "(cnum + 1) + d = m" by simp
  from Suc.IH [OF inv1 this]
  obtain st' where "writescreen_cols L g tmt lnum (cnum + 1) m st1 = Some st'"
    and "grid_inv L g tmt n m D st'" by blast
  with c line enc wr show ?case
    by (subst writescreen_cols.simps) (simp add: Let_def)
qed

lemma writescreen_lines_inv:
  assumes kg: "keeps_grid L" and wc: "wctomb_ok L"
  shows "grid_inv L g tmt n m D st \<Longrightarrow> lnum + d = n \<Longrightarrow>
     \<exists>st'. writescreen_lines L g tmt lnum n m st = Some st' \<and> grid_inv L g tmt n m D st'"
proof (induction d arbitrary: lnum st)
  case 0
  then show ?case by (subst writescreen_lines.simps) simp
next
  case (Suc d)
  from Suc.prems(2) have lnum: "lnum < n" and next_line: "(lnum + 1) + d = n" by simp_all
  from grid_inv_line [OF Suc.prems(1) lnum]
  obtain line where line: "current_line L g st lnum = Some line" by blast
  show ?case
  proof (cases "dirty line")
    case False
    from Suc.IH [OF Suc.prems(1) next_line] lnum line False show ?thesis
      by (subst writescreen_lines.simps) simp
  next
    case True
    from writescreen_cols_inv [OF kg wc lnum Suc.prems(1), of 0 m]
    obtain st1 where cols: "writescreen_cols L g tmt lnum 0 m st = Some st1"
      and inv1: "grid_inv L g tmt n m D st1" by auto
    from Suc.IH [OF inv1 next_line] lnum line True cols show ?thesis
      by (subst writescreen_lines.simps) simp
  qed
qed

lemma writescreen_lines_clean:
  "lnum + d = n \<Longrightarrow> \<forall>l. lnum \<le> l \<and> l < n \<longrightarrow> (\<exists>line. current_line L g st l = Some line \<and> \<not> dirty line) \<Longrightarrow>
   writescreen_lines L g tmt lnum n m st = Some st"
proof (induction d arbitrary: lnum)
  case 0
  then show ?case by (subst writescreen_lines.simps) simp
next
  case (Suc d)
  from Suc.prems have lnum: "lnum < n" by simp
  with Suc.prems(2) obtain line where line: "current_line L g st lnum = Some line" "\<not> dirty line"
    by (metis order_refl)
  have "writescreen_lines L g tmt (lnum + 1) n m st = Some st"
    by (rule Suc.IH) (use Suc.prems in auto)
  with lnum line show ?case
    by (subst writescreen_lines.simps) simp
qed

lemma writescreen_skip_clean:
  "lnum < n \<Longrightarrow> current_line L g st lnum = Some line \<Longrightarrow> \<not> dirty line \<Longrightarrow>
   writescreen_lines L g tmt lnum n m st = writescreen_lines L g tmt (Suc lnum) n m st"
  by (subst writescreen_lines.simps) simp

lemma writescreen_total:
  assumes kg: "keeps_grid L" and wc: "wctomb_ok L"
    and scr: "screen g \<noteq> NULL" "terminals st (screen g) = Some v"
    and ok: "grid_ok (tmt_screen L v)"
    and tmt: "tmt \<noteq> NULL" "terminals st tmt \<noteq> None"
  shows "\<exists>st'. writescreen L g tmt st = Some st' \<and>
           (\<forall>l < nline (tmt_screen L v). line_dirty L g st l \<longrightarrow> line_dirty L g st' l)"
proof -
  let ?n = "nline (tmt_screen L v)" and ?m = "ncol (tmt_screen L v)"
  let ?D = "line_dirty L g st"
  have cur: "current_line L g st l = Some (lines (tmt_screen L v) ! l)" if "l < ?n" for l
    using that scr ok by (simp add: current_line_def grid_ok_def)
  have inv: "grid_inv L g tmt ?n ?m ?D st"
    using scr ok tmt cur by (auto simp: grid_inv_def grid_ok_def line_dirty_def)
  from writescreen_lines_inv [OF kg wc inv, of 0 ?n]
  obtain st' where run: "writescreen_lines L g tmt 0 ?n ?m st = Some st'"
    and inv': "grid_inv L g tmt ?n ?m ?D st'" by auto
  have "line_dirty L g st' l" if "l < ?n" and "line_dirty L g st l" for l
    using grid_inv_line [OF inv' that(1)] that(2) by (auto simp: line_dirty_def)
  moreover have "writescreen L g tmt st = Some st'"
    using scr run by (simp add: writescreen_def Let_def)
  ultimately show ?thesis by blast
qed

lemma writescreen_all_clean:
  assumes scr: "screen g \<noteq> NULL" "terminals st (screen g) = Some v"
    and ok: "grid_ok (tmt_screen L v)"
    and clean: "\<forall>l < nline (tmt_screen L v). \<not> line_dirty L g st l"
  shows "writescreen L g tmt st = Some st"
proof -
  let ?n = "nline (tmt_screen L v)" and ?m = "ncol (tmt_screen L v)"
  have cur: "current_line L g st l = Some (lines (tmt_screen L v) ! l)" if "l < ?n" for l
    using that scr ok by (simp add: current_line_def grid_ok_def)
  have "\<forall>l. 0 \<le> l \<and> l < ?n \<longrightarrow> (\<exists>line. current_line L g st l = Some line \<and> \<not> dirty line)"
    using cur clean by (auto simp: line_dirty_def)
  then have "writescreen_lines L g tmt 0 ?n ?m st = Some st"
    by (intro writescreen_lines_clean) auto
  with scr show ?thesis by (simp add: writescreen_def Let_def)
qed

text \<open>
  Claim C7, as amended. For every Virtual Terminal Buffer state with a well-formed grid,
  \<^verbatim>\<open>writescreen\<close> returns, and it marks no line clean: every line whose dirty flag was set
  before the pass still has it set afterwards. A line whose dirty flag is clear when the
  pass reaches it is skipped without a call of \<^verbatim>\<open>tmt_write\<close> and without a change of
  state; so when no line is dirty the pass produces no output and changes nothing.
\<close>

theorem writescreen_keeps_dirty:
  assumes kg: "keeps_grid L" and wc: "wctomb_ok L"
    and scr: "screen g \<noteq> NULL" "terminals st (screen g) = Some v"
    and ok: "grid_ok (tmt_screen L v)"
    and tmt: "tmt \<noteq> NULL" "terminals st tmt \<noteq> None"
  shows "(\<exists>st'. writescreen L g tmt st = Some st' \<and>
           (\<forall>l < nline (tmt_screen L v). line_dirty L g st l \<longrightarrow> line_dirty L g st' l) \<and>
           ((\<forall>l < nline (tmt_screen L v). \<not> line_dirty L g st l) \<longrightarrow> st' = st)) \<and>
         (\<forall>lnum n m st1 line.
            lnum < n \<and> current_line L g st1 lnum = Some line \<and> \<not> dirty line \<longrightarrow>
            writescreen_lines L g tmt lnum n m st1 = writescreen_lines L g tmt (Suc lnum) n m st1)"
proof -
  from writescreen_total [OF kg wc scr ok tmt]
  obtain st' where run: "writescreen L g tmt st = Some st'"
    and keep: "\<forall>l < nline (tmt_screen L v). line_dirty L g st l \<longrightarrow> line_dirty L g st' l"
    by blast
  have "st' = st" if "\<forall>l < nline (tmt_screen L v). \<not> line_dirty L g st l"
    using writescreen_all_clean [OF scr ok that, of tmt] run by simp
  with run keep have first: "\<exists>st'. writescreen L g tmt st = Some st' \<and>
           (\<forall>l < nline (tmt_screen L v). line_dirty L g st l \<longrightarrow> line_dirty L g st' l) \<and>
           ((\<forall>l < nline (tmt_screen L v). \<not> line_dirty L g st l) \<longrightarrow> st' = st)"
    by blast
  have "\<forall>lnum n m st1 line.
            lnum < n \<and> current_line L g st1 lnum = Some line \<and> \<not> dirty line \<longrightarrow>
            writescreen_lines L g tmt lnum n m st1 = writescreen_lines L g tmt (Suc lnum) n m st1"
    by (blast intro: writescreen_skip_clean)
  with first show ?thesis by blast
qed

theorem writescreen_keeps_dirty_witness:
  "keeps_grid demo_lib \<and> wctomb_ok demo_lib \<and> screen demo_ctx \<noteq> NULL \<and>
   terminals demo_st (screen demo_ctx) = Some (demo_screen, []) \<and>
   grid_ok (tmt_screen demo_lib (demo_screen, [])) \<and> (100 :: nat) \<noteq> NULL \<and>
   terminals demo_st 100 \<noteq> None \<and>
   line_dirty demo_lib demo_ctx demo_st 1 \<and>
   (\<exists>st'. writescreen demo_lib demo_ctx 100 demo_st = Some st' \<and>
      line_dirty demo_lib demo_ctx st' 1)"
proof -
  have h3: "screen demo_ctx \<noteq> NULL" by (simp add: demo_ctx_def NULL_def)
  have h4: "terminals demo_st (screen demo_ctx) = Some (demo_screen, [])"
    by (simp add: demo_st_def demo_ctx_def)
  have h6: "(100 :: nat) \<noteq> NULL" by (simp add: NULL_def)
  have h7: "terminals demo_st 100 \<noteq> None" by (simp add: demo_st_def)
  have n: "nline (tmt_screen demo_lib (demo_screen, [])) = 2"
    by (simp add: demo_screen_def demo_lib_def [THEN arg_cong [where f = tmt_screen], simplified])
  from writescreen_keeps_dirty [OF demo_keeps_grid demo_wctomb_ok h3 h4 demo_grid_ok h6 h7]
  obtain st' where "writescreen demo_lib demo_ctx 100 demo_st = Some st'"
    and "\<forall>l < 2. line_dirty demo_lib demo_ctx demo_st l \<longrightarrow> line_dirty demo_lib demo_ctx st' l"
    unfolding n by blast
  with demo_dirty(2) have "\<exists>st'. writescreen demo_lib demo_ctx 100 demo_st = Some st' \<and>
      line_dirty demo_lib demo_ctx st' 1" by auto
  with demo_keeps_grid demo_wctomb_ok h3 h4 demo_grid_ok h6 h7 demo_dirty(2) show ?thesis
    by blast
qed

text \<open>
  Claim C7 as stated fails: the pass visits the dirty second line of the screen, writes
  its two cells, and leaves the line dirty.
\<close>

theorem writescreen_clean_counterexample:
  "line_dirty demo_lib demo_ctx demo_st 1 \<and>
   (\<exists>st'. writescreen demo_lib demo_ctx 100 demo_st = Some st' \<and>
      written st' = [(100, [0x41]), (100, replacement_char)] \<and>
      line_dirty demo_lib demo_ctx st' 1)"
  using demo_run demo_dirty by simp

end
